theory Spec2Isabelle
  imports Main "HOL-Library.Product_Lexorder" "HOL-Library.List_Lexorder" "HOL-Library.Multiset"
begin

section \<open>Auto-navigation plugin (main.js): the index-synchronisation engine\<close>

text \<open>
  The plugin keeps one generated index document per folder of an Obsidian vault.
  This theory embeds \<^verbatim>\<open>main.js\<close>: the settings, the exclusion list, the three
  \<^verbatim>\<open>updateOrCreate...Navigation\<close> steps, \<^verbatim>\<open>buildRecursiveContent\<close> and the pass
  \<^verbatim>\<open>initializeStructure\<close>. JavaScript strings are \<^typ>\<open>string\<close>; the host's objects
  (\<^verbatim>\<open>TFile\<close>, \<^verbatim>\<open>TFolder\<close>) are datatypes; the host's asynchronous store operations are
  the fields of a record, so that every result holds for every behaviour of the host,
  failures included.
\<close>

subsection \<open>JavaScript string and array operations used by the plugin\<close>

abbreviation NL :: string where
  "NL \<equiv> [CHR 0x0A]"

text \<open>
  \<^verbatim>\<open>String.prototype.trim\<close> removes the white space and the line terminators at both ends.
  A \<^typ>\<open>char\<close> is a code unit from U+0000 to U+00FF. Of these, white space or line
  terminator are the tab, the line feed, the vertical tab, the form feed, the carriage
  return, the space and the no-break space U+00A0; the others (U+1680, U+2000 to U+200A,
  U+2028, U+2029, U+202F, U+205F, U+3000, U+FEFF) are code units the type does not have.
\<close>

definition is_space :: "char \<Rightarrow> bool" where
  "is_space c \<longleftrightarrow>
     c \<in> set [CHR 0x09, CHR 0x0A, CHR 0x0B, CHR 0x0C, CHR 0x0D, CHR 0x20, CHR 0xA0]"

definition trim :: "string \<Rightarrow> string" where
  "trim s = rev (dropWhile is_space (rev (dropWhile is_space s)))"

text \<open>\<^verbatim>\<open>s.split(sep)\<close> with a one-character separator: never the empty array.\<close>

fun split_on :: "char \<Rightarrow> string \<Rightarrow> string list" where
  "split_on sep [] = [[]]"
| "split_on sep (c # cs) =
     (if c = sep then [] # split_on sep cs
      else (case split_on sep cs of
              w # ws \<Rightarrow> (c # w) # ws
            | [] \<Rightarrow> [[c]]))"

text \<open>\<^verbatim>\<open>lines.join(sep)\<close>.\<close>

fun join :: "string \<Rightarrow> string list \<Rightarrow> string" where
  "join sep [] = []"
| "join sep [l] = l"
| "join sep (l # m # ls) = l @ sep @ join sep (m # ls)"

text \<open>\<^verbatim>\<open>'  '.repeat(level)\<close>.\<close>

definition repeat :: "string \<Rightarrow> nat \<Rightarrow> string" where
  "repeat s n = concat (replicate n s)"

text \<open>
  \<^verbatim>\<open>Array.prototype.sort(compare)\<close>: a stable sort; \<^verbatim>\<open>compare(a, b) <= 0\<close> keeps
  \<^verbatim>\<open>a\<close> before \<^verbatim>\<open>b\<close>.
\<close>

fun insert_cmp :: "('a \<Rightarrow> 'a \<Rightarrow> int) \<Rightarrow> 'a \<Rightarrow> 'a list \<Rightarrow> 'a list" where
  "insert_cmp c x [] = [x]"
| "insert_cmp c x (y # ys) = (if c x y \<le> 0 then x # y # ys else y # insert_cmp c x ys)"

fun sort_cmp :: "('a \<Rightarrow> 'a \<Rightarrow> int) \<Rightarrow> 'a list \<Rightarrow> 'a list" where
  "sort_cmp c [] = []"
| "sort_cmp c (x # xs) = insert_cmp c x (sort_cmp c xs)"

subsection \<open>Settings (lines 6-9, 27-38)\<close>

record settings =
  excludedFolders :: string
  navigationFileName :: string

definition DEFAULT_SETTINGS :: settings where
  "DEFAULT_SETTINGS =
     \<lparr>excludedFolders = ''Templates, Attachments, .trash'', navigationFileName = ''Navigation''\<rparr>"

text \<open>
  \<^verbatim>\<open>loadData()\<close> gives \<^verbatim>\<open>null\<close> (here \<open>None\<close>) when nothing was saved, and the saved object
  otherwise, a map from keys to values. \<^verbatim>\<open>Object.assign({}, DEFAULT_SETTINGS, data)\<close> takes
  every key the saved object has from it and the others from the defaults.
\<close>

definition loadSettings :: "(string \<rightharpoonup> string) option \<Rightarrow> settings" where
  "loadSettings data =
     (let saved = (case data of None \<Rightarrow> Map.empty | Some m \<Rightarrow> m) in
      \<lparr>excludedFolders =
         (case saved ''excludedFolders'' of
            None \<Rightarrow> excludedFolders DEFAULT_SETTINGS
          | Some s \<Rightarrow> s),
       navigationFileName =
         (case saved ''navigationFileName'' of
            None \<Rightarrow> navigationFileName DEFAULT_SETTINGS
          | Some s \<Rightarrow> s)\<rparr>)"

definition getExcludedFolders :: "settings \<Rightarrow> string list" where
  "getExcludedFolders cfg =
     filter (\<lambda>s. s \<noteq> []) (map trim (split_on CHR '','' (excludedFolders cfg)))"

subsection \<open>The host's objects and store\<close>

text \<open>
  The classes \<^verbatim>\<open>TFile\<close> and \<^verbatim>\<open>TFolder\<close> belong to the host; the source reads these fields
  of them. A \<^verbatim>\<open>TFile\<close> has \<^verbatim>\<open>path\<close>, \<^verbatim>\<open>name\<close>, \<^verbatim>\<open>basename\<close> and \<^verbatim>\<open>extension\<close>; a
  \<^verbatim>\<open>TFolder\<close> has \<^verbatim>\<open>path\<close>, \<^verbatim>\<open>name\<close> and \<^verbatim>\<open>children\<close>. \<^verbatim>\<open>c instanceof TFolder\<close> is the
  constructor \<open>Folder\<close>. An object is the value it has when it is taken from the tree: a
  function of the plugin reads the children of its folder before its first store
  operation, and the loop of the pass reads the children of the root when it starts.
\<close>

datatype tfile =
  TFile (fpath: string) (fname: string) (basename: string) (extension: string)

datatype tfolder = TFolder (path: string) (name: string) (children: "tabstract list")
  and tabstract = File tfile | Folder tfolder

fun folders_of :: "tabstract list \<Rightarrow> tfolder list" where
  "folders_of [] = []"
| "folders_of (Folder d # cs) = d # folders_of cs"
| "folders_of (File f # cs) = folders_of cs"

fun files_of :: "tabstract list \<Rightarrow> tfile list" where
  "files_of [] = []"
| "files_of (File f # cs) = f # files_of cs"
| "files_of (Folder d # cs) = files_of cs"

fun apath :: "tabstract \<Rightarrow> string" where
  "apath (File f) = fpath f"
| "apath (Folder d) = path d"

text \<open>\<^verbatim>\<open>TFolder.isRoot()\<close>: the root folder is the one whose path is \<^verbatim>\<open>/\<close>.\<close>

definition isRoot :: "tfolder \<Rightarrow> bool" where
  "isRoot d \<longleftrightarrow> path d = ''/''"

text \<open>
  The vault: the tree under the root folder, and the text of each document by path.
\<close>

record vault =
  root :: tfolder
  contents :: "string \<rightharpoonup> string"

text \<open>
  \<^verbatim>\<open>vault.getAbstractFileByPath(p)\<close>: the first object of the tree, in preorder from the
  root, whose path is \<open>p\<close>.
\<close>

fun all_nodes :: "tfolder \<Rightarrow> tabstract list"
  and all_nodes_list :: "tabstract list \<Rightarrow> tabstract list" where
  "all_nodes (TFolder q n cs) = Folder (TFolder q n cs) # all_nodes_list cs"
| "all_nodes_list [] = []"
| "all_nodes_list (File f # cs) = File f # all_nodes_list cs"
| "all_nodes_list (Folder d # cs) = all_nodes d @ all_nodes_list cs"

definition getAbstractFileByPath :: "vault \<Rightarrow> string \<Rightarrow> tabstract option" where
  "getAbstractFileByPath v p = find (\<lambda>x. apath x = p) (all_nodes (root v))"

datatype store_error = AlreadyExists | PermissionDenied | IOError

text \<open>
  The asynchronous operations of the host and the comparison of the runtime are taken as
  parameters. A store operation acts on the vault when it is issued: it returns its result
  and the vault it leaves, in which another writer may have acted as well.
  \<open>localeCompare a b\<close> is \<^verbatim>\<open>a.localeCompare(b, undefined, { numeric: true })\<close>.
\<close>

record host =
  localeCompare :: "string \<Rightarrow> string \<Rightarrow> int"
  vault_create :: "string \<Rightarrow> string \<Rightarrow> vault \<Rightarrow> store_error option \<times> vault"
  vault_modify :: "tabstract \<Rightarrow> string \<Rightarrow> vault \<Rightarrow> store_error option \<times> vault"
  vault_read :: "tabstract \<Rightarrow> vault \<Rightarrow> (store_error + string) \<times> vault"

text \<open>
  The engine's state is the vault and the list of the write operations it has issued so
  far; an outcome is the error that left the function, if any, and the state.
\<close>

datatype call = Create string string | Modify string string

fun call_path :: "call \<Rightarrow> string" where
  "call_path (Create p md) = p"
| "call_path (Modify p md) = p"

type_synonym state = "vault \<times> call list"

type_synonym outcome = "store_error option \<times> state"

subsection \<open>The reconcile block (lines 66-78, 108-120 and 134-146)\<close>

text \<open>
  The three steps end with the same block, on the object \<open>file\<close> fetched earlier at
  \<open>navPath\<close> and the text \<open>md\<close>. The block awaits at most two store operations, one after
  the other. \<open>reconcile_start\<close> is the block up to its first \<^verbatim>\<open>await\<close>: it issues the
  creation when \<open>file\<close> is \<^verbatim>\<open>null\<close>, and the reading otherwise. The function is suspended
  there with the operation and its result. \<open>reconcile_resume\<close> is the block from there on.
  A failure of \<^verbatim>\<open>create\<close> is caught, whatever it is; a failure of \<^verbatim>\<open>read\<close> or \<^verbatim>\<open>modify\<close>
  leaves the function.
\<close>

datatype suspended =
  Creating string string "store_error option"
| Reading tabstract string "store_error + string"

definition reconcile_start ::
  "host \<Rightarrow> tabstract option \<Rightarrow> string \<Rightarrow> string \<Rightarrow> state \<Rightarrow> suspended \<times> state" where
  "reconcile_start h file navPath md st =
     (case st of (v, log) \<Rightarrow>
       (case file of
          None \<Rightarrow>
            (case vault_create h navPath md v of
               (r, v1) \<Rightarrow> (Creating navPath md r, v1, log @ [Create navPath md]))
        | Some file' \<Rightarrow>
            (case vault_read h file' v of
               (r, v1) \<Rightarrow> (Reading file' md r, v1, log))))"

definition reconcile_resume :: "host \<Rightarrow> suspended \<Rightarrow> state \<Rightarrow> outcome" where
  "reconcile_resume h s st =
     (case st of (v, log) \<Rightarrow>
       (case s of
          Creating navPath md None \<Rightarrow> (None, v, log)
        | Creating navPath md (Some e) \<Rightarrow>
            (case getAbstractFileByPath v navPath of
               None \<Rightarrow> (None, v, log)
             | Some file' \<Rightarrow>
                 (case vault_modify h file' md v of
                    (r, v1) \<Rightarrow> (r, v1, log @ [Modify (apath file') md])))
        | Reading file' md (Inl e) \<Rightarrow> (Some e, v, log)
        | Reading file' md (Inr current) \<Rightarrow>
            if trim current \<noteq> trim md
            then (case vault_modify h file' md v of
                    (r, v1) \<Rightarrow> (r, v1, log @ [Modify (apath file') md]))
            else (None, v, log)))"

text \<open>The block in a function that is awaited: nothing comes between its two parts.\<close>

definition reconcile :: "host \<Rightarrow> tabstract option \<Rightarrow> string \<Rightarrow> string \<Rightarrow> state \<Rightarrow> outcome" where
  "reconcile h file navPath md st =
     (case reconcile_start h file navPath md st of (s, st1) \<Rightarrow> reconcile_resume h s st1)"

subsection \<open>updateOrCreateRootNavigation (lines 52-79)\<close>

definition root_folders :: "host \<Rightarrow> settings \<Rightarrow> vault \<Rightarrow> tfolder list" where
  "root_folders h cfg v =
     sort_cmp (\<lambda>a b. localeCompare h (name a) (name b))
       (filter (\<lambda>c. name c \<notin> set (getExcludedFolders cfg)) (folders_of (children (root v))))"

definition folder_link :: "tfolder \<Rightarrow> string" where
  "folder_link f = ''- [['' @ path f @ ''/'' @ name f @ ''|'' @ name f @ '']]'' @ NL"

definition root_md :: "host \<Rightarrow> settings \<Rightarrow> vault \<Rightarrow> string" where
  "root_md h cfg v =
     ''#'' @ navigationFileName cfg @ NL @ NL @ concat (map folder_link (root_folders h cfg v))"

definition updateOrCreateRootNavigation :: "host \<Rightarrow> settings \<Rightarrow> state \<Rightarrow> outcome" where
  "updateOrCreateRootNavigation h cfg st =
     (let navName = navigationFileName cfg @ ''.md'';
          file = getAbstractFileByPath (fst st) navName;
          md = root_md h cfg (fst st)
      in reconcile h file navName md st)"

subsection \<open>buildRecursiveContent (lines 149-177)\<close>

definition build_subfolders :: "host \<Rightarrow> settings \<Rightarrow> tabstract list \<Rightarrow> tfolder list" where
  "build_subfolders h cfg cs =
     sort_cmp (\<lambda>a b. localeCompare h (name a) (name b))
       (filter (\<lambda>c. name c \<notin> set (getExcludedFolders cfg)) (folders_of cs))"

definition build_files :: "host \<Rightarrow> string \<Rightarrow> tabstract list \<Rightarrow> tfile list" where
  "build_files h excludeName cs =
     sort_cmp (\<lambda>a b. localeCompare h (basename a) (basename b))
       (filter (\<lambda>c. extension c = ''md'' \<and> fname c \<noteq> excludeName) (files_of cs))"

function buildRecursiveContent ::
  "host \<Rightarrow> settings \<Rightarrow> tfolder \<Rightarrow> string \<Rightarrow> nat \<Rightarrow> string list" where
  "buildRecursiveContent h cfg (TFolder p n cs) excludeName level =
     (let indent = repeat ''  '' level in
      concat (map (\<lambda>sub. (indent @ ''- **'' @ name sub @ ''**'')
                          # buildRecursiveContent h cfg sub excludeName (level + 1))
                (build_subfolders h cfg cs))
      @ map (\<lambda>f. indent @ ''- [['' @ basename f @ '']]'') (build_files h excludeName cs))"
  by pat_completeness auto
termination
proof -
  have smaller: "size d < Suc (size_list size cs)" if "d \<in> set (folders_of cs)"
    for d :: tfolder and cs
    using that by (induction cs rule: folders_of.induct) auto
  have ins: "set (insert_cmp c x xs) = insert x (set xs)"
    for c :: "tfolder \<Rightarrow> tfolder \<Rightarrow> int" and x xs
    by (induction xs) auto
  have srt: "set (sort_cmp c xs) = set xs"
    for c :: "tfolder \<Rightarrow> tfolder \<Rightarrow> int" and xs
    by (induction xs) (auto simp: ins)
  show ?thesis
    by (relation "measure (\<lambda>(h, cfg, d, e, l). size d)")
       (auto simp: build_subfolders_def srt dest: smaller)
qed

subsection \<open>updateOrCreateLevel3Navigation (lines 123-147)\<close>

definition level3_newContent :: "host \<Rightarrow> settings \<Rightarrow> tfolder \<Rightarrow> string" where
  "level3_newContent h cfg folder =
     ''#Navigation for '' @ name folder @ NL @ NL
     @ join NL (buildRecursiveContent h cfg folder (name folder @ ''.md'') 0) @ NL"

text \<open>
  \<open>level3_call\<close> is the function up to its first \<^verbatim>\<open>await\<close>: it has returned (\<open>None\<close>) or
  is suspended in its block. \<open>updateOrCreateLevel3Navigation\<close> is the whole function.
\<close>

definition level3_call ::
  "host \<Rightarrow> settings \<Rightarrow> tfolder \<Rightarrow> state \<Rightarrow> suspended option \<times> state" where
  "level3_call h cfg folder st =
     (if name folder \<in> set (getExcludedFolders cfg) then (None, st)
      else
        let navName = name folder @ ''.md'';
            navPath = path folder @ ''/'' @ navName;
            file = getAbstractFileByPath (fst st) navPath;
            newContent = level3_newContent h cfg folder
        in (case reconcile_start h file navPath newContent st of (s, st1) \<Rightarrow> (Some s, st1)))"

definition updateOrCreateLevel3Navigation ::
  "host \<Rightarrow> settings \<Rightarrow> tfolder \<Rightarrow> state \<Rightarrow> outcome" where
  "updateOrCreateLevel3Navigation h cfg folder st =
     (case level3_call h cfg folder st of
        (None, st1) \<Rightarrow> (None, st1)
      | (Some s, st1) \<Rightarrow> reconcile_resume h s st1)"

subsection \<open>updateOrCreateLevel2Navigation (lines 81-121)\<close>

definition level2_subFolders :: "host \<Rightarrow> settings \<Rightarrow> tfolder \<Rightarrow> tfolder list" where
  "level2_subFolders h cfg folder =
     sort_cmp (\<lambda>a b. localeCompare h (name a) (name b))
       (filter (\<lambda>c. name c \<notin> set (getExcludedFolders cfg)) (folders_of (children folder)))"

definition level2_mdFiles :: "host \<Rightarrow> tfolder \<Rightarrow> tfile list" where
  "level2_mdFiles h folder =
     sort_cmp (\<lambda>a b. localeCompare h (basename a) (basename b))
       (filter (\<lambda>c. extension c = ''md'' \<and> fname c \<noteq> name folder @ ''.md'')
          (files_of (children folder)))"

definition level2_md :: "host \<Rightarrow> settings \<Rightarrow> tfolder \<Rightarrow> string" where
  "level2_md h cfg folder =
     ''#Navigation for '' @ name folder @ NL @ NL
     @ concat (map folder_link (level2_subFolders h cfg folder))
     @ concat (map (\<lambda>f. ''- [['' @ basename f @ '']]'' @ NL) (level2_mdFiles h folder))"

text \<open>
  The call at line 101 is not awaited. It runs up to its first \<^verbatim>\<open>await\<close> and is suspended
  there (\<open>level3_forEach\<close> gives the suspended calls in the order of the calls); the
  caller goes on with the next sub-folder, and then with its own block up to the first
  \<^verbatim>\<open>await\<close> of that. The model takes the operations of the host to settle in the order
  in which they were issued: the suspended calls then go on, one after the other, before
  the caller does (\<open>level3_resume\<close>). A failure in one of them reaches nobody.
\<close>

fun level3_forEach ::
  "host \<Rightarrow> settings \<Rightarrow> tfolder list \<Rightarrow> state \<Rightarrow> suspended list \<times> state" where
  "level3_forEach h cfg [] st = ([], st)"
| "level3_forEach h cfg (f # fs) st =
     (case level3_call h cfg f st of
        (None, st1) \<Rightarrow> level3_forEach h cfg fs st1
      | (Some s, st1) \<Rightarrow>
          (case level3_forEach h cfg fs st1 of (ss, st2) \<Rightarrow> (s # ss, st2)))"

definition level3_resume :: "host \<Rightarrow> suspended list \<Rightarrow> state \<Rightarrow> state" where
  "level3_resume h ss st = fold (\<lambda>s st1. snd (reconcile_resume h s st1)) ss st"

text \<open>
  \<open>parent\<close> is \<^verbatim>\<open>folder.parent\<close>, \<open>None\<close> for \<^verbatim>\<open>null\<close>. The folder itself is never
  \<^verbatim>\<open>null\<close>: the callers pass elements of a children array that are folders.
\<close>

definition updateOrCreateLevel2Navigation ::
  "host \<Rightarrow> settings \<Rightarrow> tfolder option \<Rightarrow> tfolder \<Rightarrow> state \<Rightarrow> outcome" where
  "updateOrCreateLevel2Navigation h cfg parent folder st =
     (if (case parent of None \<Rightarrow> True | Some p \<Rightarrow> \<not> isRoot p)
         \<or> name folder \<in> set (getExcludedFolders cfg)
      then (None, st)
      else
        let navName = name folder @ ''.md'';
            navPath = path folder @ ''/'' @ navName;
            file = getAbstractFileByPath (fst st) navPath;
            md = level2_md h cfg folder
        in (case level3_forEach h cfg (level2_subFolders h cfg folder) st of
              (ss, st1) \<Rightarrow>
                (case reconcile_start h file navPath md st1 of
                   (s, st2) \<Rightarrow> reconcile_resume h s (level3_resume h ss st2))))"

subsection \<open>initializeStructure (lines 40-50)\<close>

fun level2_forEach ::
  "host \<Rightarrow> settings \<Rightarrow> tfolder \<Rightarrow> tabstract list \<Rightarrow> state \<Rightarrow> outcome" where
  "level2_forEach h cfg r [] st = (None, st)"
| "level2_forEach h cfg r (File f # cs) st = level2_forEach h cfg r cs st"
| "level2_forEach h cfg r (Folder child # cs) st =
     (if name child \<notin> set (getExcludedFolders cfg)
      then (case updateOrCreateLevel2Navigation h cfg (Some r) child st of
              (Some e, st1) \<Rightarrow> (Some e, st1)
            | (None, st1) \<Rightarrow> level2_forEach h cfg r cs st1)
      else level2_forEach h cfg r cs st)"

definition initializeStructure :: "host \<Rightarrow> settings \<Rightarrow> state \<Rightarrow> outcome" where
  "initializeStructure h cfg st =
     (case updateOrCreateRootNavigation h cfg st of
        (Some e, st1) \<Rightarrow> (Some e, st1)
      | (None, st1) \<Rightarrow> level2_forEach h cfg (root (fst st1)) (children (root (fst st1))) st1)"

subsection \<open>A reference host\<close>

text \<open>
  Modelled from the spec: the host's storage interface (section 6: fetch the text of a
  document, create a document at a path, failing when one is there, overwrite a document)
  is not part of the source. \<open>obsidian\<close> is a host without concurrent writers: each
  operation acts on the vault at once. A new document is a child of the folder whose path
  is the path's directory, or of the root; its name, base name and extension are read off
  its path.
\<close>

definition parent_path :: "string \<Rightarrow> string" where
  "parent_path p =
     (if CHR ''/'' \<in> set p then rev (tl (dropWhile (\<lambda>c. c \<noteq> CHR ''/'') (rev p))) else ''/'')"

definition name_of_path :: "string \<Rightarrow> string" where
  "name_of_path p = rev (takeWhile (\<lambda>c. c \<noteq> CHR ''/'') (rev p))"

definition basename_of :: "string \<Rightarrow> string" where
  "basename_of n =
     (if CHR ''.'' \<in> set n then rev (tl (dropWhile (\<lambda>c. c \<noteq> CHR ''.'') (rev n))) else n)"

definition extension_of :: "string \<Rightarrow> string" where
  "extension_of n =
     (if CHR ''.'' \<in> set n then rev (takeWhile (\<lambda>c. c \<noteq> CHR ''.'') (rev n)) else [])"

definition new_file :: "string \<Rightarrow> tfile" where
  "new_file p =
     TFile p (name_of_path p) (basename_of (name_of_path p)) (extension_of (name_of_path p))"

fun add_file :: "string \<Rightarrow> tfile \<Rightarrow> tfolder \<Rightarrow> tfolder"
  and add_file_list :: "string \<Rightarrow> tfile \<Rightarrow> tabstract list \<Rightarrow> tabstract list" where
  "add_file pp f (TFolder q n cs) =
     TFolder q n (add_file_list pp f cs @ (if q = pp then [File f] else []))"
| "add_file_list pp f [] = []"
| "add_file_list pp f (File g # cs) = File g # add_file_list pp f cs"
| "add_file_list pp f (Folder d # cs) = Folder (add_file pp f d) # add_file_list pp f cs"

definition obs_create :: "string \<Rightarrow> string \<Rightarrow> vault \<Rightarrow> store_error option \<times> vault" where
  "obs_create p data v =
     (case getAbstractFileByPath v p of
        Some existing \<Rightarrow> (Some AlreadyExists, v)
      | None \<Rightarrow>
          (case getAbstractFileByPath v (parent_path p) of
             Some (Folder d) \<Rightarrow>
               (None, \<lparr>root = add_file (parent_path p) (new_file p) (root v),
                       contents = (contents v)(p \<mapsto> data)\<rparr>)
           | Some (File f) \<Rightarrow> (Some IOError, v)
           | None \<Rightarrow> (Some IOError, v)))"

definition obs_modify :: "tabstract \<Rightarrow> string \<Rightarrow> vault \<Rightarrow> store_error option \<times> vault" where
  "obs_modify file data v =
     (case file of
        File f \<Rightarrow> (None, v\<lparr>contents := (contents v)(fpath f \<mapsto> data)\<rparr>)
      | Folder d \<Rightarrow> (Some IOError, v))"

definition obs_read :: "tabstract \<Rightarrow> vault \<Rightarrow> (store_error + string) \<times> vault" where
  "obs_read file v =
     (case file of
        File f \<Rightarrow> (case contents v (fpath f) of Some c \<Rightarrow> (Inr c, v) | None \<Rightarrow> (Inl IOError, v))
      | Folder d \<Rightarrow> (Inl IOError, v))"

definition obsidian :: "(string \<Rightarrow> string \<Rightarrow> int) \<Rightarrow> host" where
  "obsidian cmp =
     \<lparr>localeCompare = cmp, vault_create = obs_create, vault_modify = obs_modify,
      vault_read = obs_read\<rparr>"


subsection \<open>A numeric-aware comparison\<close>

text \<open>
  Modelled from the spec: \<^verbatim>\<open>localeCompare\<close> belongs to the JavaScript runtime and depends
  on its locale; the spec (section 4.2) calls it a case-insensitive, numeric-aware
  comparison on names. \<open>collation_key\<close> reads a name as its characters in lower case, with
  each run of digits as one number; names compare as their keys do, numbers before
  letters.
\<close>

definition is_digit :: "char \<Rightarrow> bool" where
  "is_digit c \<longleftrightarrow> (48::nat) \<le> of_char c \<and> of_char c \<le> (57::nat)"

definition lower_code :: "char \<Rightarrow> nat" where
  "lower_code c = (if (65::nat) \<le> of_char c \<and> of_char c \<le> (90::nat) then of_char c + 32 else of_char c)"

fun collation_key :: "nat option \<Rightarrow> string \<Rightarrow> (nat \<times> nat) list" where
  "collation_key acc [] = (case acc of None \<Rightarrow> [] | Some n \<Rightarrow> [(0, n)])"
| "collation_key acc (c # cs) =
     (if is_digit c
      then collation_key (Some ((case acc of None \<Rightarrow> 0 | Some n \<Rightarrow> n) * 10 + (of_char c - 48))) cs
      else (case acc of None \<Rightarrow> [] | Some n \<Rightarrow> [(0, n)])
           @ (1, lower_code c) # collation_key None cs)"

definition numeric_compare :: "string \<Rightarrow> string \<Rightarrow> int" where
  "numeric_compare a b =
     (let ka = collation_key None a; kb = collation_key None b
      in if ka < kb then - 1 else if ka = kb then 0 else 1)"

subsection \<open>Hosts that fail, and example vaults\<close>

text \<open>
  \<open>denying\<close> refuses every creation and leaves the vault as it is. On \<open>racing\<close> another
  writer creates the document first, so that the plugin's creation fails and the document
  is there afterwards. \<open>readonly h\<close> is \<open>h\<close> with every overwrite refused.
\<close>

definition denying :: "(string \<Rightarrow> string \<Rightarrow> int) \<Rightarrow> host" where
  "denying cmp = (obsidian cmp)\<lparr>vault_create := \<lambda>p data v. (Some PermissionDenied, v)\<rparr>"

definition racing :: "(string \<Rightarrow> string \<Rightarrow> int) \<Rightarrow> host" where
  "racing cmp =
     (obsidian cmp)\<lparr>vault_create :=
        \<lambda>p data v. (Some AlreadyExists, snd (obs_create p ''written by another'' v))\<rparr>"

definition readonly :: "host \<Rightarrow> host" where
  "readonly h = h\<lparr>vault_modify := \<lambda>doc data v. (Some PermissionDenied, v)\<rparr>"

definition empty_vault :: vault where
  "empty_vault = \<lparr>root = TFolder ''/'' [] [], contents = Map.empty\<rparr>"

text \<open>
  The scenario of the spec (section 8): the root holds \<^verbatim>\<open>Projects\<close> and \<^verbatim>\<open>Templates\<close>;
  \<^verbatim>\<open>Projects\<close> holds the empty folder \<^verbatim>\<open>Alpha\<close> and the document \<^verbatim>\<open>Notes.md\<close>.
  \<open>deep_vault\<close> has a folder \<^verbatim>\<open>Beta\<close> with a document in \<^verbatim>\<open>Alpha\<close> as well.
\<close>

definition scenario_vault :: vault where
  "scenario_vault =
     \<lparr>root = TFolder ''/'' []
        [Folder (TFolder ''Projects'' ''Projects''
           [Folder (TFolder ''Projects/Alpha'' ''Alpha'' []),
            File (TFile ''Projects/Notes.md'' ''Notes.md'' ''Notes'' ''md'')]),
         Folder (TFolder ''Templates'' ''Templates'' [])],
      contents = [''Projects/Notes.md'' \<mapsto> ''some notes'']\<rparr>"


text \<open>
  \<open>stale_vault\<close> has outdated index documents; in \<open>unreadable_vault\<close> the documents
  \<^verbatim>\<open>Navigation.md\<close> and \<^verbatim>\<open>Projects/Projects.md\<close> are in the tree and have no text to read.
\<close>

definition stale_vault :: vault where
  "stale_vault =
     \<lparr>root = TFolder ''/'' []
        [File (TFile ''Navigation.md'' ''Navigation.md'' ''Navigation'' ''md''),
         Folder (TFolder ''Projects'' ''Projects''
           [File (TFile ''Projects/Projects.md'' ''Projects.md'' ''Projects'' ''md'')])],
      contents = [''Navigation.md'' \<mapsto> ''#Old'', ''Projects/Projects.md'' \<mapsto> ''#Old'']\<rparr>"

definition unreadable_vault :: vault where
  "unreadable_vault =
     \<lparr>root = TFolder ''/'' []
        [File (TFile ''Navigation.md'' ''Navigation.md'' ''Navigation'' ''md''),
         Folder (TFolder ''Projects'' ''Projects''
           [File (TFile ''Projects/Projects.md'' ''Projects.md'' ''Projects'' ''md'')]),
         Folder (TFolder ''Notes'' ''Notes'' [])],
      contents = Map.empty\<rparr>"


definition pending_vault :: vault where
  "pending_vault =
     \<lparr>root = TFolder ''/'' []
        [Folder (TFolder ''Projects'' ''Projects''
           [Folder (TFolder ''Projects/Alpha'' ''Alpha''
              [File (TFile ''Projects/Alpha/Alpha.md'' ''Alpha.md'' ''Alpha'' ''md'')]),
            File (TFile ''Projects/Projects.md'' ''Projects.md'' ''Projects'' ''md'')]),
         Folder (TFolder ''Notes'' ''Notes'' [])],
      contents = [''Projects/Alpha/Alpha.md'' \<mapsto> ''#Old'']\<rparr>"

definition nbsp_vault :: vault where
  "nbsp_vault =
     \<lparr>root = TFolder ''/'' []
        [File (TFile ''Navigation.md'' ''Navigation.md'' ''Navigation'' ''md'')],
      contents =
        [''Navigation.md'' \<mapsto> [CHR 0xA0, CHR 0x09] @ ''#Navigation'' @ [CHR 0xA0, CHR 0x0D]]\<rparr>"

definition chapters_vault :: vault where
  "chapters_vault =
     \<lparr>root = TFolder ''/'' []
        [Folder (TFolder ''Chapter 10'' ''Chapter 10'' []),
         Folder (TFolder ''chapter 2'' ''chapter 2'' []),
         Folder (TFolder ''Templates'' ''Templates'' []),
         Folder (TFolder ''Chapter 1'' ''Chapter 1'' [])],
      contents = Map.empty\<rparr>"

subsection \<open>Consistent comparison functions\<close>

text \<open>
  \<^verbatim>\<open>Array.prototype.sort\<close> sorts when the comparison function is consistent: of two
  values one is not after the other, and not being after is transitive.
\<close>

definition consistent :: "(string \<Rightarrow> string \<Rightarrow> int) \<Rightarrow> bool" where
  "consistent cmp \<longleftrightarrow>
     (\<forall>a b. cmp a b \<le> 0 \<or> cmp b a \<le> 0)
     \<and> (\<forall>a b c. cmp a b \<le> 0 \<and> cmp b c \<le> 0 \<longrightarrow> cmp a c \<le> 0)"

text \<open>Three documents of one folder, in the order the store happens to list them.\<close>

definition sections_folder :: tfolder where
  "sections_folder =
     TFolder ''Docs/Book'' ''Book''
       [File (TFile ''Docs/Book/Section 10.md'' ''Section 10.md'' ''Section 10'' ''md''),
        File (TFile ''Docs/Book/Section 1.md'' ''Section 1.md'' ''Section 1'' ''md''),
        File (TFile ''Docs/Book/Section 2.md'' ''Section 2.md'' ''Section 2'' ''md'')]"

subsection \<open>The tree without its excluded folders\<close>

text \<open>
  \<open>prune ex d\<close> is the folder \<open>d\<close> without the folders below it whose name is in \<open>ex\<close>,
  and so without everything inside them.
\<close>

fun prune :: "string list \<Rightarrow> tfolder \<Rightarrow> tfolder"
  and prune_list :: "string list \<Rightarrow> tabstract list \<Rightarrow> tabstract list" where
  "prune ex (TFolder q n cs) = TFolder q n (prune_list ex cs)"
| "prune_list ex [] = []"
| "prune_list ex (File f # cs) = File f # prune_list ex cs"
| "prune_list ex (Folder d # cs) =
     (if name d \<in> set ex then prune_list ex cs else Folder (prune ex d) # prune_list ex cs)"

subsection \<open>A pass as a list of reconcile steps\<close>

text \<open>
  The definitions of this subsection serve the proofs about whole passes on the reference
  host. \<open>status_at v p\<close> says what a step finds at the path \<open>p\<close>. \<open>step\<close> is the reconcile
  block, with nothing between its two parts, on the object found at the path when the
  block starts. A \<open>run\<close> takes a list of steps one after the other: a failure of a \<open>Must\<close>
  step ends it, a failure of a \<open>May\<close> step, a second-level step whose call is not awaited,
  is dropped. A pass on the reference host ends as the run of its \<open>plan\<close> does, with the
  same vault and the same writes (lemma \<open>initializeStructure_sim\<close>); the overwrites of the
  second-level steps come later in the pass than in the run.
\<close>

datatype doc_status = Absent | IsFolder | Unreadable | Text string

definition status_at :: "vault \<Rightarrow> string \<Rightarrow> doc_status" where
  "status_at v p =
     (case getAbstractFileByPath v p of
        None \<Rightarrow> Absent
      | Some (Folder d) \<Rightarrow> IsFolder
      | Some (File f) \<Rightarrow> (case contents v (fpath f) of None \<Rightarrow> Unreadable | Some c \<Rightarrow> Text c))"

fun same_doc :: "tabstract option \<Rightarrow> tabstract option \<Rightarrow> bool" where
  "same_doc None None = True"
| "same_doc (Some (File f)) (Some (File g)) = (f = g)"
| "same_doc (Some (Folder d)) (Some (Folder e)) = True"
| "same_doc x y = False"

definition step :: "host \<Rightarrow> string \<Rightarrow> string \<Rightarrow> state \<Rightarrow> outcome" where
  "step h p md st = reconcile h (getAbstractFileByPath (fst st) p) p md st"

datatype item = Must string string | May string string

fun item_path :: "item \<Rightarrow> string" where
  "item_path (Must p md) = p"
| "item_path (May p md) = p"

fun run :: "host \<Rightarrow> item list \<Rightarrow> state \<Rightarrow> outcome" where
  "run h [] st = (None, st)"
| "run h (May p md # items) st = run h items (snd (step h p md st))"
| "run h (Must p md # items) st =
     (case step h p md st of
        (Some e, st1) \<Rightarrow> (Some e, st1)
      | (None, st1) \<Rightarrow> run h items st1)"

definition navPath :: "tfolder \<Rightarrow> string" where
  "navPath d = path d @ ''/'' @ name d @ ''.md''"

definition level2_items :: "host \<Rightarrow> settings \<Rightarrow> tfolder \<Rightarrow> item list" where
  "level2_items h cfg folder =
     map (\<lambda>g. May (navPath g) (level3_newContent h cfg g)) (level2_subFolders h cfg folder)
     @ [Must (navPath folder) (level2_md h cfg folder)]"

definition children_items :: "host \<Rightarrow> settings \<Rightarrow> tabstract list \<Rightarrow> item list" where
  "children_items h cfg cs =
     concat (map (level2_items h cfg)
       (filter (\<lambda>d. name d \<notin> set (getExcludedFolders cfg)) (folders_of cs)))"


subsection \<open>Notions for the proofs about passes\<close>

text \<open>
  \<open>refreshed\<close> is an object of the tree after a document was added: a document is as it
  was, a folder has the new document where it belongs. A path is \<open>blocked\<close> when a step
  cannot read what is there, and \<open>settled\<close> for a text when the document there has that
  text up to white space. A list of steps is \<open>creatable\<close> when the directory of each path
  is a folder. A new document is \<open>harmless\<close> for the children of the root when it is the
  index document of the folder it lands in, so that no listing changes. \<open>indexed\<close> lists
  the folders the steps of the first-level folders work on.
\<close>

fun refreshed :: "string \<Rightarrow> tfile \<Rightarrow> tabstract \<Rightarrow> tabstract" where
  "refreshed pp f (File g) = File g"
| "refreshed pp f (Folder d) = Folder (add_file pp f d)"

definition blocked :: "vault \<Rightarrow> string \<Rightarrow> bool" where
  "blocked v p \<longleftrightarrow> status_at v p = IsFolder \<or> status_at v p = Unreadable"

definition settled :: "vault \<Rightarrow> string \<Rightarrow> string \<Rightarrow> bool" where
  "settled v p md \<longleftrightarrow> (\<exists>c. status_at v p = Text c \<and> trim c = trim md)"


definition creatable :: "vault \<Rightarrow> item list \<Rightarrow> bool" where
  "creatable v items \<longleftrightarrow> (\<forall>i\<in>set items. status_at v (parent_path (item_path i)) = IsFolder)"




text \<open>
  On the reference host a suspended second-level call has one thing left to do at most,
  the overwrite of its document: \<open>overwrite_of\<close> is the path and the text of that
  overwrite. \<open>patch ms v\<close> is the vault \<open>v\<close> after the overwrites \<open>ms\<close>. A suspended call is
  \<open>calm\<close> when its creation did not fail and, if it was reading a folder, the reading
  failed.
\<close>

fun patch :: "(string \<times> string) list \<Rightarrow> vault \<Rightarrow> vault" where
  "patch [] v = v"
| "patch (m # ms) v = patch ms (v\<lparr>contents := (contents v)(fst m \<mapsto> snd m)\<rparr>)"

fun overwrite_of :: "suspended \<Rightarrow> (string \<times> string) list" where
  "overwrite_of (Reading (File f) md (Inr current)) =
     (if trim current \<noteq> trim md then [(fpath f, md)] else [])"
| "overwrite_of s = []"

definition overwrites :: "suspended list \<Rightarrow> (string \<times> string) list" where
  "overwrites ss = concat (map overwrite_of ss)"

fun calm :: "suspended \<Rightarrow> bool" where
  "calm (Creating p md r) = (r = None)"
| "calm (Reading (File f) md r) = True"
| "calm (Reading (Folder d) md r) = (case r of Inl e \<Rightarrow> True | Inr c \<Rightarrow> False)"


subsection \<open>The folders at depth three or deeper\<close>


section \<open>Properties\<close>

subsection \<open>Sorting keeps the elements\<close>

lemma set_insert_cmp [simp]: "set (insert_cmp c x xs) = insert x (set xs)"
  by (induction xs) auto

lemma set_sort_cmp [simp]: "set (sort_cmp c xs) = set xs"
  by (induction xs) auto

subsection \<open>Settings\<close>

lemma default_excluded:
  "getExcludedFolders DEFAULT_SETTINGS = [''Templates'', ''Attachments'', ''.trash'']"
  by (simp add: getExcludedFolders_def DEFAULT_SETTINGS_def trim_def is_space_def)

text \<open>
  Claim C10. With nothing saved, or a saved object that lacks a key, loading the settings
  gives the defaults: \<^verbatim>\<open>excludedFolders\<close> is \<^verbatim>\<open>Templates, Attachments, .trash\<close> and
  \<^verbatim>\<open>navigationFileName\<close> is \<^verbatim>\<open>Navigation\<close>. By default the exclusion list is therefore
  these three names, no folder so named is among the folders of the root listing, and the
  root step works on the document \<^verbatim>\<open>Navigation.md\<close>.
\<close>

theorem loadSettings_defaults:
  "loadSettings None = DEFAULT_SETTINGS
   \<and> (saved ''excludedFolders'' = None \<longrightarrow>
        excludedFolders (loadSettings (Some saved)) = ''Templates, Attachments, .trash'')
   \<and> (saved ''navigationFileName'' = None \<longrightarrow>
        navigationFileName (loadSettings (Some saved)) = ''Navigation'')
   \<and> getExcludedFolders (loadSettings None) = [''Templates'', ''Attachments'', ''.trash'']
   \<and> (\<forall>d \<in> set (root_folders h (loadSettings None) v).
          name d \<notin> {''Templates'', ''Attachments'', ''.trash''})
   \<and> updateOrCreateRootNavigation h (loadSettings None) st
       = reconcile h (getAbstractFileByPath (fst st) ''Navigation.md'') ''Navigation.md''
           (root_md h (loadSettings None) (fst st)) st"
proof -
  have ld: "loadSettings None = DEFAULT_SETTINGS"
    by (simp add: loadSettings_def)
  have c2: "saved ''excludedFolders'' = None \<longrightarrow>
        excludedFolders (loadSettings (Some saved)) = ''Templates, Attachments, .trash''"
    by (simp add: loadSettings_def DEFAULT_SETTINGS_def)
  have c3: "saved ''navigationFileName'' = None \<longrightarrow>
        navigationFileName (loadSettings (Some saved)) = ''Navigation''"
    by (simp add: loadSettings_def DEFAULT_SETTINGS_def)
  have c4: "getExcludedFolders (loadSettings None) = [''Templates'', ''Attachments'', ''.trash'']"
    by (simp only: ld default_excluded)
  have c5: "\<forall>d \<in> set (root_folders h (loadSettings None) v).
          name d \<notin> {''Templates'', ''Attachments'', ''.trash''}"
    by (simp add: c4 root_folders_def)
  have nav: "navigationFileName DEFAULT_SETTINGS @ ''.md'' = ''Navigation.md''"
    by (simp add: DEFAULT_SETTINGS_def)
  have c6: "updateOrCreateRootNavigation h (loadSettings None) st
       = reconcile h (getAbstractFileByPath (fst st) ''Navigation.md'') ''Navigation.md''
           (root_md h (loadSettings None) (fst st)) st"
    unfolding updateOrCreateRootNavigation_def Let_def ld nav ..
  from ld c2 c3 c4 c5 c6 show ?thesis by blast
qed

theorem loadSettings_defaults_witness:
  "excludedFolders (loadSettings (Some [''navigationFileName'' \<mapsto> ''Index'']))
     = ''Templates, Attachments, .trash''
   \<and> navigationFileName (loadSettings (Some [''excludedFolders'' \<mapsto> ''Archive''])) = ''Navigation''"
  using loadSettings_defaults [of "[''navigationFileName'' \<mapsto> ''Index'']"]
    loadSettings_defaults [of "[''excludedFolders'' \<mapsto> ''Archive'']"]
  by simp

text \<open>
  Claim C9. For a container without children \<^verbatim>\<open>buildRecursiveContent\<close> returns no line at
  all, at every level, so the text of its index document is the heading line followed by
  empty lines only.
\<close>

theorem empty_container_no_lines:
  "buildRecursiveContent h cfg (TFolder p n []) excludeName level = []
   \<and> level3_newContent h cfg (TFolder p n []) = ''#Navigation for '' @ n @ NL @ NL @ NL"
  by (simp add: level3_newContent_def build_subfolders_def build_files_def)

subsection \<open>The reconcile block\<close>

lemma reconcile_unfold:
  "reconcile h file p md st =
     (case st of (v, log) \<Rightarrow>
       (case file of
          None \<Rightarrow>
            (case vault_create h p md v of
               (None, v1) \<Rightarrow> (None, v1, log @ [Create p md])
             | (Some e, v1) \<Rightarrow>
                 (case getAbstractFileByPath v1 p of
                    None \<Rightarrow> (None, v1, log @ [Create p md])
                  | Some file' \<Rightarrow>
                      (case vault_modify h file' md v1 of
                         (r, v2) \<Rightarrow>
                           (r, v2, log @ [Create p md, Modify (apath file') md]))))
        | Some file' \<Rightarrow>
            (case vault_read h file' v of
               (Inl e, v1) \<Rightarrow> (Some e, v1, log)
             | (Inr current, v1) \<Rightarrow>
                 if trim current \<noteq> trim md
                 then (case vault_modify h file' md v1 of
                         (r, v2) \<Rightarrow> (r, v2, log @ [Modify (apath file') md]))
                 else (None, v1, log))))"
  by (simp add: reconcile_def reconcile_start_def reconcile_resume_def
      split: prod.splits option.splits sum.splits)

subsection \<open>Trimming\<close>

lemma trim_back:
  "dropWhile is_space s = trim s @ rev (takeWhile is_space (rev (dropWhile is_space s)))"
proof -
  let ?ys = "dropWhile is_space s"
  have "rev (dropWhile is_space (rev ?ys)) @ rev (takeWhile is_space (rev ?ys))
      = rev (takeWhile is_space (rev ?ys) @ dropWhile is_space (rev ?ys))"
    by (rule rev_append [symmetric])
  also have "\<dots> = rev (rev ?ys)"
    by (simp only: takeWhile_dropWhile_id)
  also have "\<dots> = ?ys"
    by (rule rev_rev_ident)
  finally show ?thesis
    unfolding trim_def by (rule sym)
qed

lemma trim_split:
  "\<exists>a b. s = a @ trim s @ b \<and> list_all is_space a \<and> list_all is_space b"
proof -
  let ?ys = "dropWhile is_space s"
  have "s = takeWhile is_space s @ ?ys" by simp
  also note trim_back [of s]
  finally have 1: "s = takeWhile is_space s @ trim s @ rev (takeWhile is_space (rev ?ys))" .
  have a: "list_all is_space (takeWhile is_space s)"
    by (simp add: list_all_iff) (meson set_takeWhileD)
  have b: "list_all is_space (rev (takeWhile is_space (rev ?ys)))"
    by (simp add: list_all_iff) (meson set_takeWhileD)
  from 1 a b show ?thesis by blast
qed

lemma trim_ends:
  assumes "trim s \<noteq> []"
  shows "\<not> is_space (hd (trim s))" and "\<not> is_space (last (trim s))"
proof -
  let ?ys = "dropWhile is_space s"
  let ?zs = "dropWhile is_space (rev ?ys)"
  from assms have zs: "?zs \<noteq> []" by (simp add: trim_def)
  then have "\<not> is_space (hd ?zs)" by (rule hd_dropWhile)
  moreover have "last (trim s) = hd ?zs"
    using zs by (simp add: trim_def last_rev)
  ultimately show "\<not> is_space (last (trim s))" by simp
  from zs have ys: "?ys \<noteq> []"
    by (metis dropWhile.simps(1) rev.simps(1))
  then have nsp: "\<not> is_space (hd ?ys)" by (rule hd_dropWhile)
  have "hd ?ys = hd (trim s @ rev (takeWhile is_space (rev ?ys)))"
    using trim_back [of s] by (rule arg_cong)
  with assms have "hd ?ys = hd (trim s)" by simp
  with nsp show "\<not> is_space (hd (trim s))" by simp
qed

text \<open>
  Claim C6. With no document at the target path the block attempts the creation with the
  expected text; when the creation fails it fetches the path again and overwrites only if
  a document is there now. With a document at the path it reads it and overwrites exactly
  when the text read and the expected text differ after trimming both. Trimming takes
  white space off both ends and nothing else: a text is its trimmed text between two runs
  of white space, and the trimmed text neither begins nor ends with white space; white
  space are the tab, the line feed, the vertical tab, the form feed, the carriage return,
  the space and the no-break space. The root step is this block on the root index
  document, the second-level step is this block on the folder's index document, and so is
  the first-level step of a folder without sub-folders to index.
\<close>

theorem reconcile_cases:
  "(vault_create h p md v = (None, v1) \<longrightarrow>
      reconcile h None p md (v, log) = (None, v1, log @ [Create p md]))
   \<and> (vault_create h p md v = (Some e, v1) \<and> getAbstractFileByPath v1 p = None \<longrightarrow>
      reconcile h None p md (v, log) = (None, v1, log @ [Create p md]))
   \<and> (vault_create h p md v = (Some e, v1) \<and> getAbstractFileByPath v1 p = Some found
        \<and> vault_modify h found md v1 = (r, v2) \<longrightarrow>
      reconcile h None p md (v, log) = (r, v2, log @ [Create p md, Modify (apath found) md]))
   \<and> (vault_read h doc v = (Inr current, v1) \<and> vault_modify h doc md v1 = (r, v2) \<longrightarrow>
      reconcile h (Some doc) p md (v, log)
        = (if trim current \<noteq> trim md then (r, v2, log @ [Modify (apath doc) md])
           else (None, v1, log)))
   \<and> (vault_read h doc v = (Inl e, v1) \<longrightarrow>
      reconcile h (Some doc) p md (v, log) = (Some e, v1, log))
   \<and> (\<exists>a b. s = a @ trim s @ b \<and> list_all is_space a \<and> list_all is_space b)
   \<and> (trim s \<noteq> [] \<longrightarrow> \<not> is_space (hd (trim s)) \<and> \<not> is_space (last (trim s)))
   \<and> (is_space c \<longleftrightarrow>
        c \<in> {CHR 0x09, CHR 0x0A, CHR 0x0B, CHR 0x0C, CHR 0x0D, CHR 0x20, CHR 0xA0})
   \<and> updateOrCreateRootNavigation h cfg st
       = reconcile h (getAbstractFileByPath (fst st) (navigationFileName cfg @ ''.md''))
           (navigationFileName cfg @ ''.md'') (root_md h cfg (fst st)) st
   \<and> (name folder \<notin> set (getExcludedFolders cfg) \<longrightarrow>
        updateOrCreateLevel3Navigation h cfg folder st
          = reconcile h (getAbstractFileByPath (fst st) (path folder @ ''/'' @ name folder @ ''.md''))
              (path folder @ ''/'' @ name folder @ ''.md'') (level3_newContent h cfg folder) st)
   \<and> (isRoot r' \<and> name folder \<notin> set (getExcludedFolders cfg)
        \<and> level2_subFolders h cfg folder = [] \<longrightarrow>
        updateOrCreateLevel2Navigation h cfg (Some r') folder st
          = reconcile h (getAbstractFileByPath (fst st) (path folder @ ''/'' @ name folder @ ''.md''))
              (path folder @ ''/'' @ name folder @ ''.md'') (level2_md h cfg folder) st)"
proof -
  have block: "(vault_create h p md v = (None, v1) \<longrightarrow>
      reconcile h None p md (v, log) = (None, v1, log @ [Create p md]))
   \<and> (vault_create h p md v = (Some e, v1) \<and> getAbstractFileByPath v1 p = None \<longrightarrow>
      reconcile h None p md (v, log) = (None, v1, log @ [Create p md]))
   \<and> (vault_create h p md v = (Some e, v1) \<and> getAbstractFileByPath v1 p = Some found
        \<and> vault_modify h found md v1 = (r, v2) \<longrightarrow>
      reconcile h None p md (v, log) = (r, v2, log @ [Create p md, Modify (apath found) md]))
   \<and> (vault_read h doc v = (Inr current, v1) \<and> vault_modify h doc md v1 = (r, v2) \<longrightarrow>
      reconcile h (Some doc) p md (v, log)
        = (if trim current \<noteq> trim md then (r, v2, log @ [Modify (apath doc) md])
           else (None, v1, log)))
   \<and> (vault_read h doc v = (Inl e, v1) \<longrightarrow>
      reconcile h (Some doc) p md (v, log) = (Some e, v1, log))"
    by (simp add: reconcile_def reconcile_start_def reconcile_resume_def)
  have sp: "is_space c \<longleftrightarrow>
        c \<in> {CHR 0x09, CHR 0x0A, CHR 0x0B, CHR 0x0C, CHR 0x0D, CHR 0x20, CHR 0xA0}"
    by (simp add: is_space_def)
  have root: "updateOrCreateRootNavigation h cfg st
       = reconcile h (getAbstractFileByPath (fst st) (navigationFileName cfg @ ''.md''))
           (navigationFileName cfg @ ''.md'') (root_md h cfg (fst st)) st"
    by (simp add: updateOrCreateRootNavigation_def Let_def)
  have l3: "updateOrCreateLevel3Navigation h cfg folder st
          = reconcile h (getAbstractFileByPath (fst st) (path folder @ ''/'' @ name folder @ ''.md''))
              (path folder @ ''/'' @ name folder @ ''.md'') (level3_newContent h cfg folder) st"
    if "name folder \<notin> set (getExcludedFolders cfg)"
    using that
    by (simp add: updateOrCreateLevel3Navigation_def level3_call_def reconcile_def Let_def
        split: prod.splits)
  have l2: "updateOrCreateLevel2Navigation h cfg (Some r') folder st
          = reconcile h (getAbstractFileByPath (fst st) (path folder @ ''/'' @ name folder @ ''.md''))
              (path folder @ ''/'' @ name folder @ ''.md'') (level2_md h cfg folder) st"
    if "isRoot r'" "name folder \<notin> set (getExcludedFolders cfg)"
      "level2_subFolders h cfg folder = []"
    using that
    by (simp add: updateOrCreateLevel2Navigation_def level3_resume_def reconcile_def Let_def
        split: prod.splits)
  from block trim_split [of s] trim_ends [of s] sp root l3 l2 show ?thesis
    by blast
qed

theorem reconcile_cases_witness:
  "reconcile (obsidian numeric_compare) None ''Navigation.md'' ''#Navigation'' (empty_vault, [])
     = (None, snd (obs_create ''Navigation.md'' ''#Navigation'' empty_vault),
        [Create ''Navigation.md'' ''#Navigation''])
   \<and> reconcile (denying numeric_compare) None ''Navigation.md'' ''#Navigation'' (empty_vault, [])
     = (None, empty_vault, [Create ''Navigation.md'' ''#Navigation''])
   \<and> snd (snd (reconcile (racing numeric_compare) None ''Navigation.md'' ''#Navigation''
                  (empty_vault, [])))
     = [Create ''Navigation.md'' ''#Navigation'', Modify ''Navigation.md'' ''#Navigation'']
   \<and> snd (snd (reconcile (obsidian numeric_compare)
                  (Some (File (TFile ''Projects/Notes.md'' ''Notes.md'' ''Notes'' ''md'')))
                  ''Projects/Notes.md'' (''some notes'' @ NL) (scenario_vault, []))) = []
   \<and> snd (snd (reconcile (obsidian numeric_compare)
                  (Some (File (TFile ''Projects/Notes.md'' ''Notes.md'' ''Notes'' ''md'')))
                  ''Projects/Notes.md'' ''other notes'' (scenario_vault, [])))
     = [Modify ''Projects/Notes.md'' ''other notes'']
   \<and> reconcile (obsidian numeric_compare) (Some (Folder (TFolder ''Templates'' ''Templates'' [])))
         ''Templates'' ''text'' (scenario_vault, [])
     = (Some IOError, scenario_vault, [])
   \<and> trim ([CHR 0xA0, CHR 0x09] @ ''#Navigation'' @ [CHR 0xA0, CHR 0x0D]) = ''#Navigation''
   \<and> updateOrCreateRootNavigation (obsidian numeric_compare) DEFAULT_SETTINGS (nbsp_vault, [])
     = (None, nbsp_vault, [])"
proof -
  let ?h = "obsidian numeric_compare"
  let ?notes = "File (TFile ''Projects/Notes.md'' ''Notes.md'' ''Notes'' ''md'')"
  let ?nav = "File (TFile ''Navigation.md'' ''Navigation.md'' ''Navigation'' ''md'')"
  let ?nbsp = "[CHR 0xA0, CHR 0x09] @ ''#Navigation'' @ [CHR 0xA0, CHR 0x0D]"
  have created: "vault_create ?h ''Navigation.md'' ''#Navigation'' empty_vault
      = (None, snd (obs_create ''Navigation.md'' ''#Navigation'' empty_vault))"
    by (simp add: obsidian_def obs_create_def empty_vault_def getAbstractFileByPath_def
        parent_path_def)
  have denied: "vault_create (denying numeric_compare) ''Navigation.md'' ''#Navigation'' empty_vault
      = (Some PermissionDenied, empty_vault)
      \<and> getAbstractFileByPath empty_vault ''Navigation.md'' = None"
    by (simp add: denying_def empty_vault_def getAbstractFileByPath_def)
  define v1 where "v1 = snd (obs_create ''Navigation.md'' ''written by another'' empty_vault)"
  have raced: "vault_create (racing numeric_compare) ''Navigation.md'' ''#Navigation'' empty_vault
      = (Some AlreadyExists, v1)
      \<and> getAbstractFileByPath v1 ''Navigation.md''
          = Some (File (new_file ''Navigation.md''))
      \<and> vault_modify (racing numeric_compare) (File (new_file ''Navigation.md'')) ''#Navigation'' v1
          = (None, snd (obs_modify (File (new_file ''Navigation.md'')) ''#Navigation'' v1))"
    by (simp add: v1_def racing_def obsidian_def obs_create_def obs_modify_def empty_vault_def
        getAbstractFileByPath_def parent_path_def new_file_def)
  have same: "vault_read ?h ?notes scenario_vault = (Inr ''some notes'', scenario_vault)
      \<and> vault_modify ?h ?notes (''some notes'' @ NL) scenario_vault
          = (None, snd (obs_modify ?notes (''some notes'' @ NL) scenario_vault))
      \<and> vault_modify ?h ?notes ''other notes'' scenario_vault
          = (None, snd (obs_modify ?notes ''other notes'' scenario_vault))"
    by (simp add: obsidian_def obs_read_def obs_modify_def scenario_vault_def)
  have unread: "vault_read ?h (Folder (TFolder ''Templates'' ''Templates'' [])) scenario_vault
      = (Inl IOError, scenario_vault)"
    by (simp add: obsidian_def obs_read_def)
  have t: "trim (''some notes'' @ NL) = trim ''some notes''"
      "trim ''other notes'' \<noteq> trim ''some notes''"
    by (simp_all add: trim_def is_space_def)
  have nbsp: "trim ?nbsp = ''#Navigation''"
    by (simp add: trim_def is_space_def)
  have md: "root_md ?h DEFAULT_SETTINGS nbsp_vault = ''#Navigation'' @ NL @ NL"
    by (simp add: root_md_def root_folders_def nbsp_vault_def DEFAULT_SETTINGS_def)
  have tmd: "trim (''#Navigation'' @ NL @ NL) = ''#Navigation''"
    by (simp add: trim_def is_space_def)
  have found: "getAbstractFileByPath nbsp_vault ''Navigation.md'' = Some ?nav"
    by (simp add: getAbstractFileByPath_def nbsp_vault_def)
  have nread: "vault_read ?h ?nav nbsp_vault = (Inr ?nbsp, nbsp_vault)
      \<and> vault_modify ?h ?nav (''#Navigation'' @ NL @ NL) nbsp_vault
          = (None, snd (obs_modify ?nav (''#Navigation'' @ NL @ NL) nbsp_vault))"
    by (simp add: obsidian_def obs_read_def obs_modify_def nbsp_vault_def)
  have nav: "navigationFileName DEFAULT_SETTINGS @ ''.md'' = ''Navigation.md''"
    by (simp add: DEFAULT_SETTINGS_def)
  note i1 = reconcile_cases [where h = ?h and p = "''Navigation.md''" and md = "''#Navigation''"
        and v = empty_vault and log = "[]"
        and ?v1.0 = "snd (obs_create ''Navigation.md'' ''#Navigation'' empty_vault)",
        THEN conjunct1]
  note i2 = reconcile_cases [where h = "denying numeric_compare" and p = "''Navigation.md''"
        and md = "''#Navigation''" and v = empty_vault and log = "[]"
        and e = PermissionDenied and ?v1.0 = empty_vault,
        THEN conjunct2, THEN conjunct1]
  note i3 = reconcile_cases [where h = "racing numeric_compare" and p = "''Navigation.md''"
        and md = "''#Navigation''" and v = empty_vault and log = "[]"
        and e = AlreadyExists and ?v1.0 = v1 and found = "File (new_file ''Navigation.md'')"
        and r = None
        and ?v2.0 = "snd (obs_modify (File (new_file ''Navigation.md'')) ''#Navigation'' v1)",
        THEN conjunct2, THEN conjunct2, THEN conjunct1]
  note i4 = reconcile_cases [where h = ?h and p = "''Projects/Notes.md''" and md = "''some notes'' @ NL"
        and v = scenario_vault and log = "[]" and doc = ?notes and current = "''some notes''"
        and ?v1.0 = scenario_vault and r = None
        and ?v2.0 = "snd (obs_modify ?notes (''some notes'' @ NL) scenario_vault)",
        THEN conjunct2, THEN conjunct2, THEN conjunct2, THEN conjunct1]
  note i5 = reconcile_cases [where h = ?h and p = "''Projects/Notes.md''" and md = "''other notes''"
        and v = scenario_vault and log = "[]" and doc = ?notes and current = "''some notes''"
        and ?v1.0 = scenario_vault and r = None
        and ?v2.0 = "snd (obs_modify ?notes ''other notes'' scenario_vault)",
        THEN conjunct2, THEN conjunct2, THEN conjunct2, THEN conjunct1]
  note i6 = reconcile_cases [where h = ?h and p = "''Templates''" and md = "''text''"
        and v = scenario_vault and log = "[]"
        and doc = "Folder (TFolder ''Templates'' ''Templates'' [])" and e = IOError
        and ?v1.0 = scenario_vault,
        THEN conjunct2, THEN conjunct2, THEN conjunct2, THEN conjunct2,
        THEN conjunct1]
  note i7 = reconcile_cases [where h = ?h and p = "''Navigation.md''" and md = "''#Navigation'' @ NL @ NL"
        and v = nbsp_vault and log = "[]" and doc = ?nav and current = ?nbsp
        and ?v1.0 = nbsp_vault and r = None
        and ?v2.0 = "snd (obs_modify ?nav (''#Navigation'' @ NL @ NL) nbsp_vault)",
        THEN conjunct2, THEN conjunct2, THEN conjunct2, THEN conjunct1]
  note i8 = reconcile_cases [where h = ?h and cfg = DEFAULT_SETTINGS and st = "(nbsp_vault, [])",
        THEN conjunct2, THEN conjunct2, THEN conjunct2, THEN conjunct2,
        THEN conjunct2, THEN conjunct2, THEN conjunct2, THEN conjunct2, THEN conjunct1]
  from i1 created have 1: "reconcile ?h None ''Navigation.md'' ''#Navigation'' (empty_vault, [])
     = (None, snd (obs_create ''Navigation.md'' ''#Navigation'' empty_vault),
        [Create ''Navigation.md'' ''#Navigation''])"
    by simp
  from i2 denied have 2: "reconcile (denying numeric_compare) None ''Navigation.md'' ''#Navigation''
      (empty_vault, []) = (None, empty_vault, [Create ''Navigation.md'' ''#Navigation''])"
    by simp
  from i3 raced have 3: "snd (snd (reconcile (racing numeric_compare) None ''Navigation.md''
      ''#Navigation'' (empty_vault, [])))
     = [Create ''Navigation.md'' ''#Navigation'', Modify ''Navigation.md'' ''#Navigation'']"
    by (simp add: new_file_def)
  from i4 same t have 4: "snd (snd (reconcile ?h (Some ?notes) ''Projects/Notes.md''
      (''some notes'' @ NL) (scenario_vault, []))) = []"
    by simp
  from i5 same t have 5: "snd (snd (reconcile ?h (Some ?notes) ''Projects/Notes.md''
      ''other notes'' (scenario_vault, []))) = [Modify ''Projects/Notes.md'' ''other notes'']"
    by simp
  from i6 unread have 6: "reconcile ?h (Some (Folder (TFolder ''Templates'' ''Templates'' [])))
         ''Templates'' ''text'' (scenario_vault, []) = (Some IOError, scenario_vault, [])"
    by simp
  from i7 nread nbsp tmd have "reconcile ?h (Some ?nav) ''Navigation.md''
      (''#Navigation'' @ NL @ NL) (nbsp_vault, []) = (None, nbsp_vault, [])"
    by simp
  with i8 found md nav have 7: "updateOrCreateRootNavigation ?h DEFAULT_SETTINGS (nbsp_vault, [])
     = (None, nbsp_vault, [])"
    by simp
  from 1 2 3 4 5 6 nbsp 7 show ?thesis by blast
qed

subsection \<open>Failures of the store\<close>

text \<open>
  Claim C7, as stated: a failure of the store other than the creation race, a refused
  creation for one, is not caught and aborts the pass. It fails on the host \<open>denying\<close>:
  the creation of \<^verbatim>\<open>Navigation.md\<close> is refused and no document is there afterwards, yet
  the pass ends without an error and goes on to the creation of \<^verbatim>\<open>Projects/Projects.md\<close>.
\<close>

theorem denied_creation_not_propagated:
  "vault_create (denying numeric_compare) ''Navigation.md''
       (root_md (denying numeric_compare) DEFAULT_SETTINGS scenario_vault) scenario_vault
     = (Some PermissionDenied, scenario_vault)
   \<and> getAbstractFileByPath scenario_vault ''Navigation.md'' = None
   \<and> fst (initializeStructure (denying numeric_compare) DEFAULT_SETTINGS (scenario_vault, [])) = None
   \<and> map call_path
         (snd (snd (initializeStructure (denying numeric_compare) DEFAULT_SETTINGS
                      (scenario_vault, []))))
     = [''Navigation.md'', ''Projects/Alpha/Alpha.md'', ''Projects/Projects.md'']"
proof -
  let ?h = "denying numeric_compare"
  have refused: "vault_create ?h ''Navigation.md'' (root_md ?h DEFAULT_SETTINGS scenario_vault)
      scenario_vault = (Some PermissionDenied, scenario_vault)"
    by (simp add: denying_def)
  have absent: "getAbstractFileByPath scenario_vault ''Navigation.md'' = None"
    by code_simp
  have completes: "fst (initializeStructure ?h DEFAULT_SETTINGS (scenario_vault, [])) = None"
    by code_simp
  have goes_on: "map call_path
         (snd (snd (initializeStructure ?h DEFAULT_SETTINGS (scenario_vault, []))))
     = [''Navigation.md'', ''Projects/Alpha/Alpha.md'', ''Projects/Projects.md'']"
    by code_simp
  from refused absent completes goes_on show ?thesis by blast
qed

text \<open>
  Claim C7, amended. In the root step and in a first-level step a failure of reading the
  index document, or of overwriting it, the overwrite after a failed creation included, is
  not caught: it leaves the step and ends the pass, and the first-level folders that remain
  are not processed. A failure of creation is always caught, whatever its cause: the path
  is fetched again; when no document is there the step ends without an error and the pass
  goes on; when one is there it is overwritten, and the pass goes on unless this overwrite
  fails. In a first-level step this holds whatever the second-level calls do, which are
  not awaited.
\<close>

theorem read_and_overwrite_failures_abort:
  "(getAbstractFileByPath v (navigationFileName cfg @ ''.md'') = Some doc
      \<and> vault_read h doc v = (Inl e, v1) \<longrightarrow>
    initializeStructure h cfg (v, log) = (Some e, v1, log))
   \<and> (getAbstractFileByPath v (navigationFileName cfg @ ''.md'') = Some doc
      \<and> vault_read h doc v = (Inr current, v1) \<and> trim current \<noteq> trim (root_md h cfg v)
      \<and> vault_modify h doc (root_md h cfg v) v1 = (Some e, v2) \<longrightarrow>
    initializeStructure h cfg (v, log)
      = (Some e, v2, log @ [Modify (apath doc) (root_md h cfg v)]))
   \<and> (getAbstractFileByPath v (navigationFileName cfg @ ''.md'') = None
      \<and> vault_create h (navigationFileName cfg @ ''.md'') (root_md h cfg v) v = (Some e', v1)
      \<and> getAbstractFileByPath v1 (navigationFileName cfg @ ''.md'') = Some found
      \<and> vault_modify h found (root_md h cfg v) v1 = (Some e, v2) \<longrightarrow>
    initializeStructure h cfg (v, log)
      = (Some e, v2, log @ [Create (navigationFileName cfg @ ''.md'') (root_md h cfg v),
                            Modify (apath found) (root_md h cfg v)]))
   \<and> (getAbstractFileByPath v (navigationFileName cfg @ ''.md'') = None
      \<and> vault_create h (navigationFileName cfg @ ''.md'') (root_md h cfg v) v = (Some e', v1)
      \<and> getAbstractFileByPath v1 (navigationFileName cfg @ ''.md'') = None \<longrightarrow>
    initializeStructure h cfg (v, log)
      = level2_forEach h cfg (root v1) (children (root v1))
          (v1, log @ [Create (navigationFileName cfg @ ''.md'') (root_md h cfg v)]))
   \<and> (updateOrCreateRootNavigation h cfg st = (Some e, st1) \<longrightarrow>
    initializeStructure h cfg st = (Some e, st1))
   \<and> (updateOrCreateRootNavigation h cfg st = (None, st1) \<longrightarrow>
    initializeStructure h cfg st
      = level2_forEach h cfg (root (fst st1)) (children (root (fst st1))) st1)
   \<and> (isRoot r \<and> name child \<notin> set (getExcludedFolders cfg)
      \<and> level3_forEach h cfg (level2_subFolders h cfg child) (v, log) = (ss, va, la)
      \<and> getAbstractFileByPath v (path child @ ''/'' @ name child @ ''.md'') = Some doc
      \<and> vault_read h doc va = (Inl e, vb) \<longrightarrow>
    level2_forEach h cfg r (Folder child # cs) (v, log) = (Some e, level3_resume h ss (vb, la)))
   \<and> (isRoot r \<and> name child \<notin> set (getExcludedFolders cfg)
      \<and> level3_forEach h cfg (level2_subFolders h cfg child) (v, log) = (ss, va, la)
      \<and> getAbstractFileByPath v (path child @ ''/'' @ name child @ ''.md'') = Some doc
      \<and> vault_read h doc va = (Inr current, vb) \<and> trim current \<noteq> trim (level2_md h cfg child)
      \<and> level3_resume h ss (vb, la) = (vc, lc)
      \<and> vault_modify h doc (level2_md h cfg child) vc = (Some e, vd) \<longrightarrow>
    level2_forEach h cfg r (Folder child # cs) (v, log)
      = (Some e, vd, lc @ [Modify (apath doc) (level2_md h cfg child)]))
   \<and> (isRoot r \<and> name child \<notin> set (getExcludedFolders cfg)
      \<and> level3_forEach h cfg (level2_subFolders h cfg child) (v, log) = (ss, va, la)
      \<and> getAbstractFileByPath v (path child @ ''/'' @ name child @ ''.md'') = None
      \<and> vault_create h (path child @ ''/'' @ name child @ ''.md'') (level2_md h cfg child) va
          = (Some e', vb)
      \<and> level3_resume h ss
            (vb, la @ [Create (path child @ ''/'' @ name child @ ''.md'') (level2_md h cfg child)])
          = (vc, lc)
      \<and> getAbstractFileByPath vc (path child @ ''/'' @ name child @ ''.md'') = Some found
      \<and> vault_modify h found (level2_md h cfg child) vc = (Some e, vd) \<longrightarrow>
    level2_forEach h cfg r (Folder child # cs) (v, log)
      = (Some e, vd, lc @ [Modify (apath found) (level2_md h cfg child)]))
   \<and> (isRoot r \<and> name child \<notin> set (getExcludedFolders cfg)
      \<and> level3_forEach h cfg (level2_subFolders h cfg child) (v, log) = (ss, va, la)
      \<and> getAbstractFileByPath v (path child @ ''/'' @ name child @ ''.md'') = None
      \<and> vault_create h (path child @ ''/'' @ name child @ ''.md'') (level2_md h cfg child) va
          = (Some e', vb)
      \<and> level3_resume h ss
            (vb, la @ [Create (path child @ ''/'' @ name child @ ''.md'') (level2_md h cfg child)])
          = (vc, lc)
      \<and> getAbstractFileByPath vc (path child @ ''/'' @ name child @ ''.md'') = None \<longrightarrow>
    level2_forEach h cfg r (Folder child # cs) (v, log) = level2_forEach h cfg r cs (vc, lc))
   \<and> (getAbstractFileByPath v (navigationFileName cfg @ ''.md'') = None
      \<and> vault_create h (navigationFileName cfg @ ''.md'') (root_md h cfg v) v = (Some e', v1)
      \<and> getAbstractFileByPath v1 (navigationFileName cfg @ ''.md'') = Some found
      \<and> vault_modify h found (root_md h cfg v) v1 = (None, v2) \<longrightarrow>
    updateOrCreateRootNavigation h cfg (v, log)
      = (None, v2, log @ [Create (navigationFileName cfg @ ''.md'') (root_md h cfg v),
                         Modify (apath found) (root_md h cfg v)]))
   \<and> (isRoot r \<and> name child \<notin> set (getExcludedFolders cfg)
      \<and> level3_forEach h cfg (level2_subFolders h cfg child) (v, log) = (ss, va, la)
      \<and> getAbstractFileByPath v (path child @ ''/'' @ name child @ ''.md'') = None
      \<and> vault_create h (path child @ ''/'' @ name child @ ''.md'') (level2_md h cfg child) va
          = (Some e', vb)
      \<and> level3_resume h ss
            (vb, la @ [Create (path child @ ''/'' @ name child @ ''.md'') (level2_md h cfg child)])
          = (vc, lc)
      \<and> getAbstractFileByPath vc (path child @ ''/'' @ name child @ ''.md'') = Some found
      \<and> vault_modify h found (level2_md h cfg child) vc = (None, vd) \<longrightarrow>
    level2_forEach h cfg r (Folder child # cs) (v, log)
      = level2_forEach h cfg r cs (vd, lc @ [Modify (apath found) (level2_md h cfg child)]))"
  by (simp add: initializeStructure_def updateOrCreateRootNavigation_def
      updateOrCreateLevel2Navigation_def reconcile_def reconcile_start_def reconcile_resume_def
      Let_def)

theorem read_and_overwrite_failures_abort_witness:
  "initializeStructure (obsidian numeric_compare) DEFAULT_SETTINGS (unreadable_vault, [])
     = (Some IOError, unreadable_vault, [])
   \<and> initializeStructure (readonly (obsidian numeric_compare)) DEFAULT_SETTINGS (stale_vault, [])
     = (Some PermissionDenied, stale_vault,
        [Modify ''Navigation.md''
           (root_md (readonly (obsidian numeric_compare)) DEFAULT_SETTINGS stale_vault)])
   \<and> fst (initializeStructure (readonly (racing numeric_compare)) DEFAULT_SETTINGS (empty_vault, []))
     = Some PermissionDenied
   \<and> initializeStructure (denying numeric_compare) DEFAULT_SETTINGS (empty_vault, [])
     = (None, empty_vault,
        [Create ''Navigation.md'' (root_md (denying numeric_compare) DEFAULT_SETTINGS empty_vault)])
   \<and> fst (initializeStructure (obsidian numeric_compare) DEFAULT_SETTINGS (pending_vault, []))
     = Some IOError
   \<and> map call_path
         (snd (snd (initializeStructure (obsidian numeric_compare) DEFAULT_SETTINGS
                      (pending_vault, []))))
     = [''Navigation.md'', ''Projects/Alpha/Alpha.md'']
   \<and> fst (level2_forEach (obsidian numeric_compare) DEFAULT_SETTINGS (root pending_vault)
              (children (root pending_vault)) (pending_vault, []))
     = Some IOError
   \<and> map call_path
         (snd (snd (level2_forEach (obsidian numeric_compare) DEFAULT_SETTINGS (root pending_vault)
                      (children (root pending_vault)) (pending_vault, []))))
     = [''Projects/Alpha/Alpha.md'']
   \<and> fst (level2_forEach (readonly (obsidian numeric_compare)) DEFAULT_SETTINGS (root stale_vault)
         [Folder (TFolder ''Projects'' ''Projects''
            [File (TFile ''Projects/Projects.md'' ''Projects.md'' ''Projects'' ''md'')])]
         (stale_vault, []))
     = Some PermissionDenied
   \<and> fst (level2_forEach (readonly (racing numeric_compare)) DEFAULT_SETTINGS
              (root unreadable_vault) [Folder (TFolder ''Notes'' ''Notes'' [])] (unreadable_vault, []))
     = Some PermissionDenied
   \<and> level2_forEach (denying numeric_compare) DEFAULT_SETTINGS (root unreadable_vault)
         [Folder (TFolder ''Notes'' ''Notes'' [])] (unreadable_vault, [])
     = (None, unreadable_vault,
        [Create ''Notes/Notes.md''
           (level2_md (denying numeric_compare) DEFAULT_SETTINGS (TFolder ''Notes'' ''Notes'' []))])
   \<and> fst (updateOrCreateRootNavigation (racing numeric_compare) DEFAULT_SETTINGS (empty_vault, []))
     = None
   \<and> map call_path
         (snd (snd (updateOrCreateRootNavigation (racing numeric_compare) DEFAULT_SETTINGS
                      (empty_vault, []))))
     = [''Navigation.md'', ''Navigation.md'']
   \<and> fst (level2_forEach (racing numeric_compare) DEFAULT_SETTINGS (root unreadable_vault)
              [Folder (TFolder ''Notes'' ''Notes'' [])] (unreadable_vault, []))
     = None
   \<and> map call_path
         (snd (snd (level2_forEach (racing numeric_compare) DEFAULT_SETTINGS (root unreadable_vault)
                      [Folder (TFolder ''Notes'' ''Notes'' [])] (unreadable_vault, []))))
     = [''Notes/Notes.md'', ''Notes/Notes.md'']"
proof -
  let ?o = "obsidian numeric_compare"
  let ?nav = "File (TFile ''Navigation.md'' ''Navigation.md'' ''Navigation'' ''md'')"
  let ?idx = "File (TFile ''Projects/Projects.md'' ''Projects.md'' ''Projects'' ''md'')"
  let ?projects = "TFolder ''Projects'' ''Projects'' [?idx]"
  let ?alpha = "TFolder ''Projects/Alpha'' ''Alpha''
                  [File (TFile ''Projects/Alpha/Alpha.md'' ''Alpha.md'' ''Alpha'' ''md'')]"
  let ?pending = "TFolder ''Projects'' ''Projects'' [Folder ?alpha, ?idx]"
  let ?notes = "TFolder ''Notes'' ''Notes'' []"
  have nav: "navigationFileName DEFAULT_SETTINGS @ ''.md'' = ''Navigation.md''"
    by (simp add: DEFAULT_SETTINGS_def)
  have ex: "name ?projects \<notin> set (getExcludedFolders DEFAULT_SETTINGS)"
    "name ?pending \<notin> set (getExcludedFolders DEFAULT_SETTINGS)"
    "name ?notes \<notin> set (getExcludedFolders DEFAULT_SETTINGS)"
    by (simp_all add: default_excluded)
  have h1: "getAbstractFileByPath unreadable_vault ''Navigation.md'' = Some ?nav
      \<and> vault_read ?o ?nav unreadable_vault = (Inl IOError, unreadable_vault)"
    by (simp add: getAbstractFileByPath_def unreadable_vault_def obsidian_def obs_read_def)
  from read_and_overwrite_failures_abort [where h = ?o and cfg = DEFAULT_SETTINGS
      and v = unreadable_vault and log = "[]" and doc = ?nav and e = IOError
      and ?v1.0 = unreadable_vault, THEN conjunct1] nav h1
  have 1: "initializeStructure ?o DEFAULT_SETTINGS (unreadable_vault, [])
     = (Some IOError, unreadable_vault, [])"
    by simp
  have h2: "getAbstractFileByPath stale_vault ''Navigation.md'' = Some ?nav
      \<and> vault_read (readonly ?o) ?nav stale_vault = (Inr ''#Old'', stale_vault)
      \<and> vault_modify (readonly ?o) ?nav (root_md (readonly ?o) DEFAULT_SETTINGS stale_vault)
            stale_vault = (Some PermissionDenied, stale_vault)"
    by (simp add: getAbstractFileByPath_def stale_vault_def obsidian_def obs_read_def readonly_def)
  have h2': "trim ''#Old'' \<noteq> trim (root_md (readonly ?o) DEFAULT_SETTINGS stale_vault)"
    by code_simp
  from read_and_overwrite_failures_abort [where h = "readonly ?o" and cfg = DEFAULT_SETTINGS
      and v = stale_vault and log = "[]" and doc = ?nav and e = PermissionDenied
      and current = "''#Old''" and ?v1.0 = stale_vault and ?v2.0 = stale_vault,
      THEN conjunct2, THEN conjunct1] nav h2 h2'
  have 2: "initializeStructure (readonly ?o) DEFAULT_SETTINGS (stale_vault, [])
     = (Some PermissionDenied, stale_vault,
        [Modify ''Navigation.md'' (root_md (readonly ?o) DEFAULT_SETTINGS stale_vault)])"
    by simp
  define v1 where "v1 = snd (obs_create ''Navigation.md'' ''written by another'' empty_vault)"
  have h3: "getAbstractFileByPath empty_vault ''Navigation.md'' = None
      \<and> vault_create (readonly (racing numeric_compare)) ''Navigation.md''
           (root_md (readonly (racing numeric_compare)) DEFAULT_SETTINGS empty_vault) empty_vault
          = (Some AlreadyExists, v1)
      \<and> getAbstractFileByPath v1 ''Navigation.md'' = Some (File (new_file ''Navigation.md''))
      \<and> vault_modify (readonly (racing numeric_compare)) (File (new_file ''Navigation.md''))
           (root_md (readonly (racing numeric_compare)) DEFAULT_SETTINGS empty_vault) v1
          = (Some PermissionDenied, v1)"
    by (simp add: v1_def getAbstractFileByPath_def empty_vault_def readonly_def racing_def
        obsidian_def obs_create_def parent_path_def new_file_def)
  from read_and_overwrite_failures_abort [where h = "readonly (racing numeric_compare)"
      and cfg = DEFAULT_SETTINGS and v = empty_vault and log = "[]" and e' = AlreadyExists
      and ?v1.0 = v1 and found = "File (new_file ''Navigation.md'')" and e = PermissionDenied
      and ?v2.0 = v1, THEN conjunct2, THEN conjunct2, THEN conjunct1] nav h3
  have 3: "fst (initializeStructure (readonly (racing numeric_compare)) DEFAULT_SETTINGS
      (empty_vault, [])) = Some PermissionDenied"
    by simp
  have h4: "getAbstractFileByPath empty_vault ''Navigation.md'' = None
      \<and> vault_create (denying numeric_compare) ''Navigation.md''
           (root_md (denying numeric_compare) DEFAULT_SETTINGS empty_vault) empty_vault
          = (Some PermissionDenied, empty_vault)"
    by (simp add: denying_def getAbstractFileByPath_def empty_vault_def)
  have h4': "children (root empty_vault) = []"
    by (simp add: empty_vault_def)
  from read_and_overwrite_failures_abort [where h = "denying numeric_compare"
      and cfg = DEFAULT_SETTINGS and v = empty_vault and log = "[]" and e' = PermissionDenied
      and ?v1.0 = empty_vault, THEN conjunct2, THEN conjunct2, THEN conjunct2, THEN conjunct1]
    nav h4 h4'
  have 4: "initializeStructure (denying numeric_compare) DEFAULT_SETTINGS (empty_vault, [])
     = (None, empty_vault,
        [Create ''Navigation.md'' (root_md (denying numeric_compare) DEFAULT_SETTINGS empty_vault)])"
    by simp
  define first where "first = updateOrCreateRootNavigation ?o DEFAULT_SETTINGS (pending_vault, [])"
  have r1: "fst first = None"
    unfolding first_def by code_simp
  then have r2: "updateOrCreateRootNavigation ?o DEFAULT_SETTINGS (pending_vault, [])
      = (None, snd first)"
    by (simp add: first_def prod_eq_iff)
  have r3: "fst (level2_forEach ?o DEFAULT_SETTINGS (root (fst (snd first)))
      (children (root (fst (snd first)))) (snd first)) = Some IOError"
    unfolding first_def by code_simp
  from read_and_overwrite_failures_abort [where h = ?o and cfg = DEFAULT_SETTINGS
      and st = "(pending_vault, [])" and ?st1.0 = "snd first",
      THEN conjunct2, THEN conjunct2, THEN conjunct2, THEN conjunct2, THEN conjunct2,
      THEN conjunct1] r2 r3
  have whole: "fst (initializeStructure ?o DEFAULT_SETTINGS (pending_vault, [])) = Some IOError"
    by simp
  have whole_paths: "map call_path
         (snd (snd (initializeStructure ?o DEFAULT_SETTINGS (pending_vault, []))))
     = [''Navigation.md'', ''Projects/Alpha/Alpha.md'']"
    by code_simp
  define calls where
    "calls = level3_forEach ?o DEFAULT_SETTINGS (level2_subFolders ?o DEFAULT_SETTINGS ?pending)
               (pending_vault, [])"
  have c1: "level3_forEach ?o DEFAULT_SETTINGS (level2_subFolders ?o DEFAULT_SETTINGS ?pending)
      (pending_vault, []) = (fst calls, fst (snd calls), snd (snd calls))"
    by (simp add: calls_def)
  have c2: "fst (vault_read ?o ?idx (fst (snd calls))) = Inl IOError"
    unfolding calls_def by code_simp
  then have c3: "vault_read ?o ?idx (fst (snd calls))
      = (Inl IOError, snd (vault_read ?o ?idx (fst (snd calls))))"
    by (simp add: prod_eq_iff)
  have c4: "isRoot (root pending_vault)
      \<and> getAbstractFileByPath pending_vault (path ?pending @ ''/'' @ name ?pending @ ''.md'')
          = Some ?idx"
    by (simp add: isRoot_def getAbstractFileByPath_def pending_vault_def)
  have c5: "children (root pending_vault) = [Folder ?pending, Folder ?notes]"
    by (simp add: pending_vault_def)
  from read_and_overwrite_failures_abort [where h = ?o and cfg = DEFAULT_SETTINGS
      and r = "root pending_vault" and child = ?pending and v = pending_vault and log = "[]"
      and ss = "fst calls" and va = "fst (snd calls)" and la = "snd (snd calls)"
      and doc = ?idx and e = IOError and vb = "snd (vault_read ?o ?idx (fst (snd calls)))"
      and cs = "[Folder ?notes]",
      THEN conjunct2, THEN conjunct2, THEN conjunct2, THEN conjunct2, THEN conjunct2,
      THEN conjunct2, THEN conjunct1]
    ex(2) c1 c3 c4
  have "fst (level2_forEach ?o DEFAULT_SETTINGS (root pending_vault)
      [Folder ?pending, Folder ?notes] (pending_vault, [])) = Some IOError"
    by simp
  then have 5: "fst (level2_forEach ?o DEFAULT_SETTINGS (root pending_vault)
      (children (root pending_vault)) (pending_vault, [])) = Some IOError"
    by (simp only: c5)
  have paths: "map call_path
         (snd (snd (level2_forEach ?o DEFAULT_SETTINGS (root pending_vault)
                      (children (root pending_vault)) (pending_vault, []))))
     = [''Projects/Alpha/Alpha.md'']"
    by code_simp
  have h6: "isRoot (root stale_vault)
      \<and> getAbstractFileByPath stale_vault (path ?projects @ ''/'' @ name ?projects @ ''.md'')
          = Some ?idx
      \<and> level3_forEach (readonly ?o) DEFAULT_SETTINGS
            (level2_subFolders (readonly ?o) DEFAULT_SETTINGS ?projects)
            (stale_vault, []) = ([], stale_vault, [])
      \<and> vault_read (readonly ?o) ?idx stale_vault = (Inr ''#Old'', stale_vault)
      \<and> level3_resume (readonly ?o) [] (stale_vault, []) = (stale_vault, [])
      \<and> vault_modify (readonly ?o) ?idx (level2_md (readonly ?o) DEFAULT_SETTINGS ?projects)
            stale_vault = (Some PermissionDenied, stale_vault)"
    by (simp add: isRoot_def getAbstractFileByPath_def stale_vault_def obsidian_def
        obs_read_def level3_resume_def level2_subFolders_def readonly_def)
  have h6': "trim ''#Old'' \<noteq> trim (level2_md (readonly ?o) DEFAULT_SETTINGS ?projects)"
    by code_simp
  from read_and_overwrite_failures_abort [where h = "readonly ?o" and cfg = DEFAULT_SETTINGS
      and r = "root stale_vault" and child = ?projects and v = stale_vault and log = "[]"
      and ss = "[]" and va = stale_vault and la = "[]" and doc = ?idx and current = "''#Old''"
      and vb = stale_vault and vc = stale_vault and lc = "[]" and e = PermissionDenied
      and vd = stale_vault and cs = "[]",
      THEN conjunct2, THEN conjunct2, THEN conjunct2, THEN conjunct2, THEN conjunct2,
      THEN conjunct2, THEN conjunct2, THEN conjunct1]
    ex(1) h6 h6'
  have 6: "fst (level2_forEach (readonly ?o) DEFAULT_SETTINGS (root stale_vault)
      [Folder ?projects] (stale_vault, [])) = Some PermissionDenied"
    by simp
  define v2 where "v2 = snd (obs_create ''Notes/Notes.md'' ''written by another'' unreadable_vault)"
  let ?rr = "readonly (racing numeric_compare)"
  have h7: "isRoot (root unreadable_vault)
      \<and> level3_forEach ?rr DEFAULT_SETTINGS (level2_subFolders ?rr DEFAULT_SETTINGS ?notes)
            (unreadable_vault, []) = ([], unreadable_vault, [])
      \<and> getAbstractFileByPath unreadable_vault (path ?notes @ ''/'' @ name ?notes @ ''.md'') = None
      \<and> vault_create ?rr (path ?notes @ ''/'' @ name ?notes @ ''.md'')
            (level2_md ?rr DEFAULT_SETTINGS ?notes) unreadable_vault = (Some AlreadyExists, v2)
      \<and> level3_resume ?rr []
            (v2, [] @ [Create (path ?notes @ ''/'' @ name ?notes @ ''.md'')
                         (level2_md ?rr DEFAULT_SETTINGS ?notes)])
          = (v2, [Create (path ?notes @ ''/'' @ name ?notes @ ''.md'')
                    (level2_md ?rr DEFAULT_SETTINGS ?notes)])
      \<and> getAbstractFileByPath v2 (path ?notes @ ''/'' @ name ?notes @ ''.md'')
          = Some (File (new_file ''Notes/Notes.md''))
      \<and> vault_modify ?rr (File (new_file ''Notes/Notes.md''))
            (level2_md ?rr DEFAULT_SETTINGS ?notes) v2 = (Some PermissionDenied, v2)"
    by (simp add: v2_def isRoot_def getAbstractFileByPath_def unreadable_vault_def readonly_def
        racing_def obsidian_def obs_create_def parent_path_def new_file_def level3_resume_def
        level2_subFolders_def)
  from read_and_overwrite_failures_abort [where h = ?rr and cfg = DEFAULT_SETTINGS
      and r = "root unreadable_vault" and child = ?notes and v = unreadable_vault and log = "[]"
      and ss = "[]" and va = unreadable_vault and la = "[]" and e' = AlreadyExists and vb = v2
      and vc = v2
      and lc = "[Create (path ?notes @ ''/'' @ name ?notes @ ''.md'')
                   (level2_md ?rr DEFAULT_SETTINGS ?notes)]"
      and found = "File (new_file ''Notes/Notes.md'')" and e = PermissionDenied and vd = v2
      and cs = "[]",
      THEN conjunct2, THEN conjunct2, THEN conjunct2, THEN conjunct2, THEN conjunct2,
      THEN conjunct2, THEN conjunct2, THEN conjunct2, THEN conjunct1]
    ex(3) h7
  have 7: "fst (level2_forEach ?rr DEFAULT_SETTINGS (root unreadable_vault) [Folder ?notes]
      (unreadable_vault, [])) = Some PermissionDenied"
    by simp
  let ?d = "denying numeric_compare"
  have h8: "isRoot (root unreadable_vault)
      \<and> level3_forEach ?d DEFAULT_SETTINGS (level2_subFolders ?d DEFAULT_SETTINGS ?notes)
            (unreadable_vault, []) = ([], unreadable_vault, [])
      \<and> getAbstractFileByPath unreadable_vault (path ?notes @ ''/'' @ name ?notes @ ''.md'') = None
      \<and> vault_create ?d (path ?notes @ ''/'' @ name ?notes @ ''.md'')
            (level2_md ?d DEFAULT_SETTINGS ?notes) unreadable_vault
          = (Some PermissionDenied, unreadable_vault)
      \<and> level3_resume ?d []
            (unreadable_vault, [] @ [Create (path ?notes @ ''/'' @ name ?notes @ ''.md'')
                         (level2_md ?d DEFAULT_SETTINGS ?notes)])
          = (unreadable_vault, [Create (path ?notes @ ''/'' @ name ?notes @ ''.md'')
                    (level2_md ?d DEFAULT_SETTINGS ?notes)])"
    by (simp add: isRoot_def getAbstractFileByPath_def unreadable_vault_def denying_def
        level3_resume_def level2_subFolders_def)
  from read_and_overwrite_failures_abort [where h = ?d and cfg = DEFAULT_SETTINGS
      and r = "root unreadable_vault" and child = ?notes and v = unreadable_vault and log = "[]"
      and ss = "[]" and va = unreadable_vault and la = "[]" and e' = PermissionDenied
      and vb = unreadable_vault and vc = unreadable_vault
      and lc = "[Create (path ?notes @ ''/'' @ name ?notes @ ''.md'')
                   (level2_md ?d DEFAULT_SETTINGS ?notes)]"
      and cs = "[]",
      THEN conjunct2, THEN conjunct2, THEN conjunct2, THEN conjunct2, THEN conjunct2,
      THEN conjunct2, THEN conjunct2, THEN conjunct2, THEN conjunct2, THEN conjunct1]
    ex(3) h8
  have 8: "level2_forEach ?d DEFAULT_SETTINGS (root unreadable_vault) [Folder ?notes]
      (unreadable_vault, [])
     = (None, unreadable_vault,
        [Create ''Notes/Notes.md'' (level2_md ?d DEFAULT_SETTINGS ?notes)])"
    by simp
  let ?ra = "racing numeric_compare"
  define v3 where
    "v3 = snd (obs_modify (File (new_file ''Navigation.md'')) (root_md ?ra DEFAULT_SETTINGS empty_vault) v1)"
  have h9: "getAbstractFileByPath empty_vault ''Navigation.md'' = None
      \<and> vault_create ?ra ''Navigation.md'' (root_md ?ra DEFAULT_SETTINGS empty_vault) empty_vault
          = (Some AlreadyExists, v1)
      \<and> getAbstractFileByPath v1 ''Navigation.md'' = Some (File (new_file ''Navigation.md''))
      \<and> vault_modify ?ra (File (new_file ''Navigation.md''))
           (root_md ?ra DEFAULT_SETTINGS empty_vault) v1 = (None, v3)"
    by (simp add: v1_def v3_def getAbstractFileByPath_def empty_vault_def racing_def
        obsidian_def obs_create_def obs_modify_def parent_path_def new_file_def)
  from read_and_overwrite_failures_abort [where h = ?ra and cfg = DEFAULT_SETTINGS
      and v = empty_vault and log = "[]" and e' = AlreadyExists and ?v1.0 = v1
      and found = "File (new_file ''Navigation.md'')" and ?v2.0 = v3,
      THEN conjunct2, THEN conjunct2, THEN conjunct2, THEN conjunct2, THEN conjunct2,
      THEN conjunct2, THEN conjunct2, THEN conjunct2, THEN conjunct2, THEN conjunct2,
      THEN conjunct1] nav h9
  have 9: "fst (updateOrCreateRootNavigation ?ra DEFAULT_SETTINGS (empty_vault, [])) = None
      \<and> map call_path (snd (snd (updateOrCreateRootNavigation ?ra DEFAULT_SETTINGS (empty_vault, []))))
          = [''Navigation.md'', ''Navigation.md'']"
    by (simp add: new_file_def)
  define v4 where
    "v4 = snd (obs_modify (File (new_file ''Notes/Notes.md'')) (level2_md ?ra DEFAULT_SETTINGS ?notes) v2)"
  have h10: "isRoot (root unreadable_vault)
      \<and> level3_forEach ?ra DEFAULT_SETTINGS (level2_subFolders ?ra DEFAULT_SETTINGS ?notes)
            (unreadable_vault, []) = ([], unreadable_vault, [])
      \<and> getAbstractFileByPath unreadable_vault (path ?notes @ ''/'' @ name ?notes @ ''.md'') = None
      \<and> vault_create ?ra (path ?notes @ ''/'' @ name ?notes @ ''.md'')
            (level2_md ?ra DEFAULT_SETTINGS ?notes) unreadable_vault = (Some AlreadyExists, v2)
      \<and> level3_resume ?ra []
            (v2, [] @ [Create (path ?notes @ ''/'' @ name ?notes @ ''.md'')
                         (level2_md ?ra DEFAULT_SETTINGS ?notes)])
          = (v2, [Create (path ?notes @ ''/'' @ name ?notes @ ''.md'')
                    (level2_md ?ra DEFAULT_SETTINGS ?notes)])
      \<and> getAbstractFileByPath v2 (path ?notes @ ''/'' @ name ?notes @ ''.md'')
          = Some (File (new_file ''Notes/Notes.md''))
      \<and> vault_modify ?ra (File (new_file ''Notes/Notes.md''))
            (level2_md ?ra DEFAULT_SETTINGS ?notes) v2 = (None, v4)"
    by (simp add: v2_def v4_def isRoot_def getAbstractFileByPath_def unreadable_vault_def
        racing_def obsidian_def obs_create_def obs_modify_def parent_path_def new_file_def
        level3_resume_def level2_subFolders_def)
  from read_and_overwrite_failures_abort [where h = ?ra and cfg = DEFAULT_SETTINGS
      and r = "root unreadable_vault" and child = ?notes and v = unreadable_vault and log = "[]"
      and ss = "[]" and va = unreadable_vault and la = "[]" and e' = AlreadyExists and vb = v2
      and vc = v2
      and lc = "[Create (path ?notes @ ''/'' @ name ?notes @ ''.md'')
                   (level2_md ?ra DEFAULT_SETTINGS ?notes)]"
      and found = "File (new_file ''Notes/Notes.md'')" and vd = v4 and cs = "[]",
      THEN conjunct2, THEN conjunct2, THEN conjunct2, THEN conjunct2, THEN conjunct2,
      THEN conjunct2, THEN conjunct2, THEN conjunct2, THEN conjunct2, THEN conjunct2,
      THEN conjunct2] ex(3) h10
  have 10: "fst (level2_forEach ?ra DEFAULT_SETTINGS (root unreadable_vault) [Folder ?notes]
        (unreadable_vault, [])) = None
      \<and> map call_path (snd (snd (level2_forEach ?ra DEFAULT_SETTINGS (root unreadable_vault)
          [Folder ?notes] (unreadable_vault, [])))) = [''Notes/Notes.md'', ''Notes/Notes.md'']"
    by (simp add: new_file_def)
  from 1 2 3 4 whole whole_paths 5 paths 6 7 8 9 10 show ?thesis by blast
qed

subsection \<open>Sorted listings\<close>

lemma sorted_insert_cmp:
  assumes total: "\<And>a b. c a b \<le> 0 \<or> c b a \<le> (0::int)"
    and trans: "\<And>a b d. c a b \<le> 0 \<Longrightarrow> c b d \<le> 0 \<Longrightarrow> c a d \<le> 0"
    and sorted: "sorted_wrt (\<lambda>a b. c a b \<le> 0) xs"
  shows "sorted_wrt (\<lambda>a b. c a b \<le> 0) (insert_cmp c x xs)"
  using sorted
proof (induction xs)
  case Nil
  then show ?case by simp
next
  case (Cons y ys)
  from Cons.prems have after_y: "\<forall>z\<in>set ys. c y z \<le> 0"
    and rest: "sorted_wrt (\<lambda>a b. c a b \<le> 0) ys"
    by simp_all
  show ?case
  proof (cases "c x y \<le> 0")
    case True
    have "\<forall>z\<in>set ys. c x z \<le> 0"
    proof
      fix z assume "z \<in> set ys"
      with after_y have "c y z \<le> 0" by blast
      with True show "c x z \<le> 0" by (rule trans)
    qed
    with True after_y rest show ?thesis by simp
  next
    case False
    with total have "c y x \<le> 0" by blast
    moreover have "sorted_wrt (\<lambda>a b. c a b \<le> 0) (insert_cmp c x ys)"
      using rest by (rule Cons.IH)
    ultimately show ?thesis using False after_y by simp
  qed
qed

lemma sorted_sort_cmp:
  assumes "\<And>a b. c a b \<le> 0 \<or> c b a \<le> (0::int)"
    and "\<And>a b d. c a b \<le> 0 \<Longrightarrow> c b d \<le> 0 \<Longrightarrow> c a d \<le> 0"
  shows "sorted_wrt (\<lambda>a b. c a b \<le> 0) (sort_cmp c xs)"
proof (induction xs)
  case Nil
  show ?case by simp
next
  case (Cons x xs)
  have "sorted_wrt (\<lambda>a b. c a b \<le> 0) (insert_cmp c x (sort_cmp c xs))"
    using assms(1) assms(2) Cons.IH by (rule sorted_insert_cmp)
  then show ?case by simp
qed

lemma sorted_by_key:
  assumes "consistent cmp"
  shows "sorted_wrt (\<lambda>a b. cmp (key a) (key b) \<le> 0)
           (sort_cmp (\<lambda>a b. cmp (key a) (key b)) xs)"
proof -
  from assms have t: "\<forall>a b. cmp a b \<le> 0 \<or> cmp b a \<le> 0"
    and tr: "\<forall>a b c. cmp a b \<le> 0 \<and> cmp b c \<le> 0 \<longrightarrow> cmp a c \<le> 0"
    unfolding consistent_def by blast+
  have total: "cmp (key a) (key b) \<le> 0 \<or> cmp (key b) (key a) \<le> 0" for a b
    using t by blast
  have trans: "cmp (key a) (key d) \<le> 0"
    if "cmp (key a) (key b) \<le> 0" "cmp (key b) (key d) \<le> 0" for a b d
    using tr that by blast
  show ?thesis
    using total trans by (rule sorted_sort_cmp [where c = "\<lambda>a b. cmp (key a) (key b)"])
qed

lemma numeric_compare_consistent: "consistent numeric_compare"
  unfolding consistent_def numeric_compare_def Let_def
  by (auto split: if_splits)

lemma mset_insert_cmp [simp]: "mset (insert_cmp c x xs) = add_mset x (mset xs)"
  by (induction xs) simp_all

lemma mset_sort_cmp [simp]: "mset (sort_cmp c xs) = mset xs"
  by (induction xs) simp_all

text \<open>
  Claim C5. The folder list and the document list of every listing (root, first level,
  and each level of the recursive outline) hold exactly the folders and the documents the
  filters keep, sorted by the comparison the runtime gives, on the folder name and on the
  document base name; the generated text has one entry for each element of these lists, in
  the order of the lists, folders first. With the numeric-aware comparison of the spec,
  documents named Section 10, Section 1 and Section 2 are listed in the order 1, 2, 10.
\<close>

theorem listings_sorted:
  "(consistent (localeCompare h) \<longrightarrow>
      sorted_wrt (\<lambda>a b. localeCompare h (name a) (name b) \<le> 0) (root_folders h cfg v)
      \<and> sorted_wrt (\<lambda>a b. localeCompare h (name a) (name b) \<le> 0) (level2_subFolders h cfg folder)
      \<and> sorted_wrt (\<lambda>a b. localeCompare h (basename a) (basename b) \<le> 0) (level2_mdFiles h folder)
      \<and> sorted_wrt (\<lambda>a b. localeCompare h (name a) (name b) \<le> 0) (build_subfolders h cfg cs)
      \<and> sorted_wrt (\<lambda>a b. localeCompare h (basename a) (basename b) \<le> 0)
           (build_files h excludeName cs))
   \<and> mset (root_folders h cfg v)
       = mset (filter (\<lambda>c. name c \<notin> set (getExcludedFolders cfg)) (folders_of (children (root v))))
   \<and> mset (level2_subFolders h cfg folder)
       = mset (filter (\<lambda>c. name c \<notin> set (getExcludedFolders cfg)) (folders_of (children folder)))
   \<and> mset (level2_mdFiles h folder)
       = mset (filter (\<lambda>c. extension c = ''md'' \<and> fname c \<noteq> name folder @ ''.md'')
                 (files_of (children folder)))
   \<and> mset (build_subfolders h cfg cs)
       = mset (filter (\<lambda>c. name c \<notin> set (getExcludedFolders cfg)) (folders_of cs))
   \<and> mset (build_files h excludeName cs)
       = mset (filter (\<lambda>c. extension c = ''md'' \<and> fname c \<noteq> excludeName) (files_of cs))
   \<and> root_md h cfg v
       = ''#'' @ navigationFileName cfg @ NL @ NL
         @ concat (map (\<lambda>f. ''- [['' @ path f @ ''/'' @ name f @ ''|'' @ name f @ '']]'' @ NL)
                     (root_folders h cfg v))
   \<and> level2_md h cfg folder
       = ''#Navigation for '' @ name folder @ NL @ NL
         @ concat (map (\<lambda>f. ''- [['' @ path f @ ''/'' @ name f @ ''|'' @ name f @ '']]'' @ NL)
                     (level2_subFolders h cfg folder))
         @ concat (map (\<lambda>f. ''- [['' @ basename f @ '']]'' @ NL) (level2_mdFiles h folder))
   \<and> buildRecursiveContent h cfg (TFolder p n cs) excludeName level
       = concat (map (\<lambda>sub. (repeat ''  '' level @ ''- **'' @ name sub @ ''**'')
                             # buildRecursiveContent h cfg sub excludeName (level + 1))
                   (build_subfolders h cfg cs))
         @ map (\<lambda>f. repeat ''  '' level @ ''- [['' @ basename f @ '']]'')
             (build_files h excludeName cs)
   \<and> consistent numeric_compare
   \<and> level2_md (obsidian numeric_compare) cfg sections_folder
       = ''#Navigation for Book'' @ NL @ NL @ ''- [[Section 1]]'' @ NL @ ''- [[Section 2]]'' @ NL
         @ ''- [[Section 10]]'' @ NL
   \<and> buildRecursiveContent (obsidian numeric_compare) cfg sections_folder ''Book.md'' 0
       = [''- [[Section 1]]'', ''- [[Section 2]]'', ''- [[Section 10]]'']"
proof -
  have ex: "level2_md (obsidian numeric_compare) cfg sections_folder
       = ''#Navigation for Book'' @ NL @ NL @ ''- [[Section 1]]'' @ NL @ ''- [[Section 2]]'' @ NL
         @ ''- [[Section 10]]'' @ NL"
    by (simp add: level2_md_def level2_subFolders_def level2_mdFiles_def sections_folder_def
        obsidian_def numeric_compare_def is_digit_def lower_code_def)
  have ex2: "buildRecursiveContent (obsidian numeric_compare) cfg sections_folder ''Book.md'' 0
       = [''- [[Section 1]]'', ''- [[Section 2]]'', ''- [[Section 10]]'']"
    by (simp add: build_subfolders_def build_files_def sections_folder_def repeat_def
        obsidian_def numeric_compare_def is_digit_def lower_code_def)
  have gen: "sorted_wrt (\<lambda>a b. localeCompare h (name a) (name b) \<le> 0) (root_folders h cfg v)
      \<and> sorted_wrt (\<lambda>a b. localeCompare h (name a) (name b) \<le> 0) (level2_subFolders h cfg folder)
      \<and> sorted_wrt (\<lambda>a b. localeCompare h (basename a) (basename b) \<le> 0) (level2_mdFiles h folder)
      \<and> sorted_wrt (\<lambda>a b. localeCompare h (name a) (name b) \<le> 0) (build_subfolders h cfg cs)
      \<and> sorted_wrt (\<lambda>a b. localeCompare h (basename a) (basename b) \<le> 0)
           (build_files h excludeName cs)"
    if "consistent (localeCompare h)"
    unfolding root_folders_def level2_subFolders_def level2_mdFiles_def build_subfolders_def
      build_files_def
    by (intro conjI sorted_by_key that)
  have elems: "mset (root_folders h cfg v)
       = mset (filter (\<lambda>c. name c \<notin> set (getExcludedFolders cfg)) (folders_of (children (root v))))"
    "mset (level2_subFolders h cfg folder)
       = mset (filter (\<lambda>c. name c \<notin> set (getExcludedFolders cfg)) (folders_of (children folder)))"
    "mset (level2_mdFiles h folder)
       = mset (filter (\<lambda>c. extension c = ''md'' \<and> fname c \<noteq> name folder @ ''.md'')
                 (files_of (children folder)))"
    "mset (build_subfolders h cfg cs)
       = mset (filter (\<lambda>c. name c \<notin> set (getExcludedFolders cfg)) (folders_of cs))"
    "mset (build_files h excludeName cs)
       = mset (filter (\<lambda>c. extension c = ''md'' \<and> fname c \<noteq> excludeName) (files_of cs))"
    unfolding root_folders_def level2_subFolders_def level2_mdFiles_def build_subfolders_def
      build_files_def
    by (rule mset_sort_cmp)+
  have fl: "folder_link
      = (\<lambda>f. ''- [['' @ path f @ ''/'' @ name f @ ''|'' @ name f @ '']]'' @ NL)"
    by (rule ext) (simp add: folder_link_def)
  have texts: "root_md h cfg v
       = ''#'' @ navigationFileName cfg @ NL @ NL
         @ concat (map (\<lambda>f. ''- [['' @ path f @ ''/'' @ name f @ ''|'' @ name f @ '']]'' @ NL)
                     (root_folders h cfg v))"
    "level2_md h cfg folder
       = ''#Navigation for '' @ name folder @ NL @ NL
         @ concat (map (\<lambda>f. ''- [['' @ path f @ ''/'' @ name f @ ''|'' @ name f @ '']]'' @ NL)
                     (level2_subFolders h cfg folder))
         @ concat (map (\<lambda>f. ''- [['' @ basename f @ '']]'' @ NL) (level2_mdFiles h folder))"
    unfolding root_md_def level2_md_def fl by (rule refl)+
  have outline: "buildRecursiveContent h cfg (TFolder p n cs) excludeName level
       = concat (map (\<lambda>sub. (repeat ''  '' level @ ''- **'' @ name sub @ ''**'')
                             # buildRecursiveContent h cfg sub excludeName (level + 1))
                   (build_subfolders h cfg cs))
         @ map (\<lambda>f. repeat ''  '' level @ ''- [['' @ basename f @ '']]'')
             (build_files h excludeName cs)"
    by (simp add: Let_def)
  show ?thesis
    apply (intro conjI impI)
    apply (simp_all only: ex ex2 numeric_compare_consistent gen elems texts outline)
    done
qed

theorem listings_sorted_witness:
  "consistent (localeCompare (obsidian numeric_compare))
   \<and> sorted_wrt (\<lambda>a b. numeric_compare (name a) (name b) \<le> 0)
      (root_folders (obsidian numeric_compare) DEFAULT_SETTINGS chapters_vault)
   \<and> map name (root_folders (obsidian numeric_compare) DEFAULT_SETTINGS chapters_vault)
      = [''Chapter 1'', ''chapter 2'', ''Chapter 10'']
   \<and> root_md (obsidian numeric_compare) DEFAULT_SETTINGS chapters_vault
      = ''#Navigation'' @ NL @ NL @ ''- [[Chapter 1/Chapter 1|Chapter 1]]'' @ NL
        @ ''- [[chapter 2/chapter 2|chapter 2]]'' @ NL
        @ ''- [[Chapter 10/Chapter 10|Chapter 10]]'' @ NL
   \<and> map basename (level2_mdFiles (obsidian numeric_compare) sections_folder)
      = [''Section 1'', ''Section 2'', ''Section 10'']
   \<and> sorted_wrt (\<lambda>a b. numeric_compare (basename a) (basename b) \<le> 0)
      (level2_mdFiles (obsidian numeric_compare) sections_folder)"
proof -
  have c: "consistent (localeCompare (obsidian numeric_compare))"
    by (simp add: obsidian_def numeric_compare_consistent)
  have l: "localeCompare (obsidian numeric_compare) = numeric_compare"
    by (simp add: obsidian_def)
  have m: "map basename (level2_mdFiles (obsidian numeric_compare) sections_folder)
      = [''Section 1'', ''Section 2'', ''Section 10'']"
    by (simp add: level2_mdFiles_def sections_folder_def
        obsidian_def numeric_compare_def is_digit_def lower_code_def)
  have n: "map name (root_folders (obsidian numeric_compare) DEFAULT_SETTINGS chapters_vault)
      = [''Chapter 1'', ''chapter 2'', ''Chapter 10'']"
    by code_simp
  have t: "root_md (obsidian numeric_compare) DEFAULT_SETTINGS chapters_vault
      = ''#Navigation'' @ NL @ NL @ ''- [[Chapter 1/Chapter 1|Chapter 1]]'' @ NL
        @ ''- [[chapter 2/chapter 2|chapter 2]]'' @ NL
        @ ''- [[Chapter 10/Chapter 10|Chapter 10]]'' @ NL"
    by code_simp
  show ?thesis
    using listings_sorted [where h = "obsidian numeric_compare" and cfg = DEFAULT_SETTINGS
        and v = chapters_vault and folder = sections_folder] c m n t
    by (simp add: l)
qed

subsection \<open>Children lists\<close>

lemma folders_of_append [simp]: "folders_of (xs @ ys) = folders_of xs @ folders_of ys"
  by (induction xs rule: folders_of.induct) simp_all

lemma files_of_append [simp]: "files_of (xs @ ys) = files_of xs @ files_of ys"
  by (induction xs rule: files_of.induct) simp_all

lemma Folder_in_children: "(Folder d \<in> set cs) = (d \<in> set (folders_of cs))"
  by (induction cs rule: folders_of.induct) auto


lemma insert_cmp_map:
  assumes "\<And>a b. c (g a) (g b) = c' a b"
  shows "insert_cmp c (g x) (map g xs) = map g (insert_cmp c' x xs)"
  by (induction xs) (simp_all add: assms)

lemma sort_cmp_map:
  assumes "\<And>a b. c (g a) (g b) = c' a b"
  shows "sort_cmp c (map g xs) = map g (sort_cmp c' xs)"
proof (induction xs)
  case Nil
  show ?case by simp
next
  case (Cons x xs)
  have "insert_cmp c (g x) (map g (sort_cmp c' xs)) = map g (insert_cmp c' x (sort_cmp c' xs))"
    using assms by (rule insert_cmp_map)
  with Cons show ?case by simp
qed

subsection \<open>A new document in the tree\<close>

lemma add_file_path_name [simp]: "path (add_file pp f d) = path d" "name (add_file pp f d) = name d"
  by (cases d; simp)+

lemma folders_of_add_file_list [simp]:
  "folders_of (add_file_list pp f cs) = map (add_file pp f) (folders_of cs)"
  by (induction cs rule: folders_of.induct) simp_all

lemma files_of_add_file_list [simp]: "files_of (add_file_list pp f cs) = files_of cs"
  by (induction cs rule: files_of.induct) simp_all

lemma build_subfolders_add:
  "build_subfolders h cfg (add_file_list pp f cs @ extra)
     = map (add_file pp f) (build_subfolders h cfg cs) @ []"
  if "folders_of extra = []"
proof -
  have "sort_cmp (\<lambda>a b. localeCompare h (name a) (name b))
          (map (add_file pp f) (filter (\<lambda>c. name c \<notin> set (getExcludedFolders cfg)) (folders_of cs)))
        = map (add_file pp f) (sort_cmp (\<lambda>a b. localeCompare h (name a) (name b))
            (filter (\<lambda>c. name c \<notin> set (getExcludedFolders cfg)) (folders_of cs)))"
    by (rule sort_cmp_map) simp
  then show ?thesis
    using that by (simp add: build_subfolders_def filter_map comp_def)
qed

lemma build_files_add:
  "build_files h ex (add_file_list pp f cs @ extra) = build_files h ex cs"
  if "\<forall>g\<in>set (files_of extra). fname g = ex"
  using that by (simp add: build_files_def)

lemma build_add_file:
  "fname f = ex \<Longrightarrow>
   buildRecursiveContent h cfg (add_file pp f d) ex level = buildRecursiveContent h cfg d ex level"
proof (induction h cfg d ex level rule: buildRecursiveContent.induct)
  case (1 h cfg p n cs excludeName level)
  let ?extra = "if p = pp then [File f] else []"
  have subs: "build_subfolders h cfg (add_file_list pp f cs @ ?extra)
      = map (add_file pp f) (build_subfolders h cfg cs)"
    using build_subfolders_add [of ?extra h cfg pp f cs] by simp
  have files: "build_files h excludeName (add_file_list pp f cs @ ?extra)
      = build_files h excludeName cs"
    using "1.prems" by (intro build_files_add) simp
  define line where
    "line = (\<lambda>sub. (repeat ''  '' level @ ''- **'' @ name sub @ ''**'')
                # buildRecursiveContent h cfg sub excludeName (level + 1))"
  have "line (add_file pp f sub) = line sub" if "sub \<in> set (build_subfolders h cfg cs)" for sub
    using "1.IH" [OF refl that] "1.prems" by (simp add: line_def)
  then have same: "map line (map (add_file pp f) (build_subfolders h cfg cs))
      = map line (build_subfolders h cfg cs)"
    by simp
  have unfold: "buildRecursiveContent h cfg (TFolder p n cs') excludeName level
      = concat (map line (build_subfolders h cfg cs'))
        @ map (\<lambda>f. repeat ''  '' level @ ''- [['' @ basename f @ '']]'')
            (build_files h excludeName cs')" for cs'
    by (simp add: line_def Let_def)
  have "buildRecursiveContent h cfg (add_file pp f (TFolder p n cs)) excludeName level
      = buildRecursiveContent h cfg (TFolder p n (add_file_list pp f cs @ ?extra)) excludeName level"
    by simp
  also have "\<dots> = concat (map line (map (add_file pp f) (build_subfolders h cfg cs)))
        @ map (\<lambda>f. repeat ''  '' level @ ''- [['' @ basename f @ '']]'')
            (build_files h excludeName cs)"
    unfolding unfold subs files ..
  also have "\<dots> = buildRecursiveContent h cfg (TFolder p n cs) excludeName level"
    unfolding unfold same ..
  finally show ?case .
qed

lemma level2_subFolders_add_file:
  "level2_subFolders h cfg (add_file pp f d) = map (add_file pp f) (level2_subFolders h cfg d)"
proof (cases d)
  case (TFolder p n cs)
  let ?extra = "if p = pp then [File f] else []"
  have "build_subfolders h cfg (add_file_list pp f cs @ ?extra)
      = map (add_file pp f) (build_subfolders h cfg cs)"
    using build_subfolders_add [of ?extra h cfg pp f cs] by simp
  with TFolder show ?thesis
    by (simp add: level2_subFolders_def build_subfolders_def)
qed

lemma folder_link_add_file [simp]: "folder_link (add_file pp f d) = folder_link d"
  by (simp add: folder_link_def)

lemma level2_mdFiles_add_file:
  "fname f = name d @ ''.md'' \<Longrightarrow> level2_mdFiles h (add_file pp f d) = level2_mdFiles h d"
  by (cases d) (simp add: level2_mdFiles_def)

lemma level2_md_add_file:
  "fname f = name d @ ''.md'' \<Longrightarrow> level2_md h cfg (add_file pp f d) = level2_md h cfg d"
  by (simp add: level2_md_def level2_subFolders_add_file level2_mdFiles_add_file comp_def)

lemma level3_newContent_add_file:
  "fname f = name d @ ''.md'' \<Longrightarrow>
   level3_newContent h cfg (add_file pp f d) = level3_newContent h cfg d"
  by (simp add: level3_newContent_def build_add_file)

lemma root_folders_add_file:
  "root_folders h cfg (v\<lparr>root := add_file pp f (root v)\<rparr>)
     = map (add_file pp f) (root_folders h cfg v)"
proof (cases "root v")
  case (TFolder p n cs)
  let ?extra = "if p = pp then [File f] else []"
  have "build_subfolders h cfg (add_file_list pp f cs @ ?extra)
      = map (add_file pp f) (build_subfolders h cfg cs)"
    using build_subfolders_add [of ?extra h cfg pp f cs] by simp
  with TFolder show ?thesis
    by (simp add: root_folders_def build_subfolders_def)
qed

lemma root_md_add_file: "root_md h cfg (v\<lparr>root := add_file pp f (root v)\<rparr>) = root_md h cfg v"
  by (simp add: root_md_def root_folders_add_file comp_def)

text \<open>
  Claim C4. The document whose name is the name of the index document is never among the
  documents a listing enumerates: not among the documents of a first-level listing, and
  at no level of the recursive outline. Whenever a listing is generated again with its
  index document in the tree, wherever it was added, the text is the one generated
  without it; the root listing enumerates folders only and is the same with any document
  added.
\<close>

theorem index_document_not_listed:
  "(\<forall>g \<in> set (level2_mdFiles h folder). fname g \<noteq> name folder @ ''.md'')
   \<and> (\<forall>g \<in> set (build_files h excludeName cs). fname g \<noteq> excludeName)
   \<and> (fname f = name folder @ ''.md'' \<longrightarrow>
        level2_md h cfg (add_file pp f folder) = level2_md h cfg folder)
   \<and> (fname f = excludeName \<longrightarrow>
        buildRecursiveContent h cfg (add_file pp f folder) excludeName level
          = buildRecursiveContent h cfg folder excludeName level)
   \<and> (fname f = name folder @ ''.md'' \<longrightarrow>
        level3_newContent h cfg (add_file pp f folder) = level3_newContent h cfg folder)
   \<and> root_md h cfg (v\<lparr>root := add_file pp f (root v)\<rparr>) = root_md h cfg v"
proof -
  have "\<forall>g \<in> set (level2_mdFiles h folder). fname g \<noteq> name folder @ ''.md''"
    by (simp add: level2_mdFiles_def)
  moreover have "\<forall>g \<in> set (build_files h excludeName cs). fname g \<noteq> excludeName"
    by (simp add: build_files_def)
  ultimately show ?thesis
    using level2_md_add_file [where f = f and d = folder and h = h and cfg = cfg and pp = pp]
      build_add_file [where f = f and ex = excludeName and h = h and cfg = cfg and pp = pp
        and d = folder and level = level]
      level3_newContent_add_file [where f = f and d = folder and h = h and cfg = cfg and pp = pp]
      root_md_add_file [where h = h and cfg = cfg and v = v and pp = pp and f = f]
    by blast
qed

theorem index_document_not_listed_witness:
  "map fname (level2_mdFiles (obsidian numeric_compare)
        (add_file ''Projects'' (new_file ''Projects/Projects.md'')
           (TFolder ''Projects'' ''Projects''
              [File (TFile ''Projects/Notes.md'' ''Notes.md'' ''Notes'' ''md'')])))
     = [''Notes.md'']
   \<and> level2_md (obsidian numeric_compare) DEFAULT_SETTINGS
        (add_file ''Projects'' (new_file ''Projects/Projects.md'')
           (TFolder ''Projects'' ''Projects''
              [File (TFile ''Projects/Notes.md'' ''Notes.md'' ''Notes'' ''md'')]))
     = ''#Navigation for Projects'' @ NL @ NL @ ''- [[Notes]]'' @ NL
   \<and> level3_newContent (obsidian numeric_compare) DEFAULT_SETTINGS
        (add_file ''Projects'' (new_file ''Projects/Projects.md'')
           (TFolder ''Projects'' ''Projects''
              [File (TFile ''Projects/Notes.md'' ''Notes.md'' ''Notes'' ''md'')]))
     = ''#Navigation for Projects'' @ NL @ NL @ ''- [[Notes]]'' @ NL"
proof -
  let ?d = "TFolder ''Projects'' ''Projects''
              [File (TFile ''Projects/Notes.md'' ''Notes.md'' ''Notes'' ''md'')]"
  have n: "fname (new_file ''Projects/Projects.md'') = name ?d @ ''.md''"
    by (simp add: new_file_def name_of_path_def)
  have l2: "level2_md (obsidian numeric_compare) DEFAULT_SETTINGS ?d
      = ''#Navigation for Projects'' @ NL @ NL @ ''- [[Notes]]'' @ NL"
    by (simp add: level2_md_def level2_subFolders_def level2_mdFiles_def)
  have l3: "level3_newContent (obsidian numeric_compare) DEFAULT_SETTINGS ?d
      = ''#Navigation for Projects'' @ NL @ NL @ ''- [[Notes]]'' @ NL"
    by (simp add: level3_newContent_def build_subfolders_def build_files_def repeat_def)
  have m: "map fname (level2_mdFiles (obsidian numeric_compare)
        (add_file ''Projects'' (new_file ''Projects/Projects.md'') ?d)) = [''Notes.md'']"
    by (simp add: level2_mdFiles_def new_file_def name_of_path_def extension_of_def)
  show ?thesis
    using index_document_not_listed [where h = "obsidian numeric_compare"
        and cfg = DEFAULT_SETTINGS and folder = ?d and f = "new_file ''Projects/Projects.md''"
        and pp = "''Projects''"] n l2 l3 m
    by simp
qed

subsection \<open>Excluded folders\<close>

lemma prune_path_name [simp]: "path (prune ex d) = path d" "name (prune ex d) = name d"
  by (cases d; simp)+

lemma files_of_prune_list [simp]: "files_of (prune_list ex cs) = files_of cs"
  by (induction cs rule: files_of.induct) simp_all

lemma folders_of_prune_list:
  "filter (\<lambda>c. name c \<notin> set ex) (folders_of (prune_list ex cs))
     = map (prune ex) (filter (\<lambda>c. name c \<notin> set ex) (folders_of cs))"
  by (induction cs rule: folders_of.induct) simp_all

lemma build_subfolders_prune:
  "build_subfolders h cfg (prune_list (getExcludedFolders cfg) cs)
     = map (prune (getExcludedFolders cfg)) (build_subfolders h cfg cs)"
proof -
  let ?ex = "getExcludedFolders cfg"
  have "sort_cmp (\<lambda>a b. localeCompare h (name a) (name b))
          (map (prune ?ex) (filter (\<lambda>c. name c \<notin> set ?ex) (folders_of cs)))
        = map (prune ?ex) (sort_cmp (\<lambda>a b. localeCompare h (name a) (name b))
            (filter (\<lambda>c. name c \<notin> set ?ex) (folders_of cs)))"
    by (rule sort_cmp_map) simp
  then show ?thesis
    by (simp add: build_subfolders_def folders_of_prune_list)
qed

lemma build_prune:
  "buildRecursiveContent h cfg (prune (getExcludedFolders cfg) d) ex level
     = buildRecursiveContent h cfg d ex level"
proof (induction h cfg d ex level rule: buildRecursiveContent.induct)
  case (1 h cfg p n cs excludeName level)
  let ?ex = "getExcludedFolders cfg"
  define line where
    "line = (\<lambda>sub. (repeat ''  '' level @ ''- **'' @ name sub @ ''**'')
                # buildRecursiveContent h cfg sub excludeName (level + 1))"
  have "line (prune ?ex sub) = line sub" if "sub \<in> set (build_subfolders h cfg cs)" for sub
    using "1.IH" [OF refl that] by (simp add: line_def)
  then have same: "map line (map (prune ?ex) (build_subfolders h cfg cs))
      = map line (build_subfolders h cfg cs)"
    by simp
  have unfold: "buildRecursiveContent h cfg (TFolder p n cs') excludeName level
      = concat (map line (build_subfolders h cfg cs'))
        @ map (\<lambda>f. repeat ''  '' level @ ''- [['' @ basename f @ '']]'')
            (build_files h excludeName cs')" for cs'
    by (simp add: line_def Let_def)
  have files: "build_files h excludeName (prune_list ?ex cs) = build_files h excludeName cs"
    by (simp add: build_files_def)
  have "buildRecursiveContent h cfg (prune ?ex (TFolder p n cs)) excludeName level
      = buildRecursiveContent h cfg (TFolder p n (prune_list ?ex cs)) excludeName level"
    by simp
  also have "\<dots> = concat (map line (map (prune ?ex) (build_subfolders h cfg cs)))
        @ map (\<lambda>f. repeat ''  '' level @ ''- [['' @ basename f @ '']]'')
            (build_files h excludeName cs)"
    unfolding unfold build_subfolders_prune files ..
  also have "\<dots> = buildRecursiveContent h cfg (TFolder p n cs) excludeName level"
    unfolding unfold same ..
  finally show ?case .
qed

lemma level2_subFolders_prune:
  "level2_subFolders h cfg (prune (getExcludedFolders cfg) d)
     = map (prune (getExcludedFolders cfg)) (level2_subFolders h cfg d)"
  using build_subfolders_prune [of h cfg "children d"]
  by (cases d) (simp add: level2_subFolders_def build_subfolders_def)

lemma folder_link_prune [simp]: "folder_link (prune ex d) = folder_link d"
  by (simp add: folder_link_def)

lemma level2_md_prune:
  "level2_md h cfg (prune (getExcludedFolders cfg) d) = level2_md h cfg d"
proof -
  have "level2_mdFiles h (prune (getExcludedFolders cfg) d) = level2_mdFiles h d"
    by (cases d) (simp add: level2_mdFiles_def)
  then show ?thesis
    by (simp add: level2_md_def level2_subFolders_prune comp_def)
qed

lemma root_md_prune:
  "root_md h cfg (v\<lparr>root := prune (getExcludedFolders cfg) (root v)\<rparr>) = root_md h cfg v"
proof -
  have "root_folders h cfg (v\<lparr>root := prune (getExcludedFolders cfg) (root v)\<rparr>)
      = map (prune (getExcludedFolders cfg)) (root_folders h cfg v)"
    using build_subfolders_prune [of h cfg "children (root v)"]
    by (cases "root v") (simp add: root_folders_def build_subfolders_def)
  then show ?thesis
    by (simp add: root_md_def comp_def)
qed

lemma level3_call_prune:
  "level3_call h cfg (prune (getExcludedFolders cfg) d) st = level3_call h cfg d st"
  by (simp add: level3_call_def level3_newContent_def build_prune)

lemma level3_forEach_prune:
  "level3_forEach h cfg (map (prune (getExcludedFolders cfg)) ds) st = level3_forEach h cfg ds st"
  by (induction ds arbitrary: st)
     (simp_all add: level3_call_prune split: prod.splits option.splits)

lemma level2_prune:
  "updateOrCreateLevel2Navigation h cfg parent (prune (getExcludedFolders cfg) d) st
     = updateOrCreateLevel2Navigation h cfg parent d st"
  by (simp add: updateOrCreateLevel2Navigation_def level2_md_prune level2_subFolders_prune
      level3_forEach_prune)

lemma level2_forEach_prune:
  "level2_forEach h cfg r (prune_list (getExcludedFolders cfg) cs) st = level2_forEach h cfg r cs st"
  by (induction h cfg r cs st rule: level2_forEach.induct)
     (simp_all add: level2_prune split: prod.splits option.splits)

text \<open>
  Claim C3. For a folder whose name is in the exclusion list the first-level step and the
  second-level step do nothing at all, so no index document is created or updated for
  it. No such folder is among the folders of a listing, at the root, at the first level
  or at any level of the recursive outline. Every text the engine generates, and the whole
  walk over the first-level folders, are what they are on the tree without the excluded
  folders and their descendants: nothing inside an excluded folder is visited or listed.
\<close>

theorem excluded_folders_skipped:
  "(name folder \<in> set (getExcludedFolders cfg) \<longrightarrow>
      updateOrCreateLevel2Navigation h cfg parent folder st = (None, st)
      \<and> updateOrCreateLevel3Navigation h cfg folder st = (None, st))
   \<and> (\<forall>d \<in> set (root_folders h cfg v). name d \<notin> set (getExcludedFolders cfg))
   \<and> (\<forall>d \<in> set (level2_subFolders h cfg folder). name d \<notin> set (getExcludedFolders cfg))
   \<and> (\<forall>d \<in> set (build_subfolders h cfg cs). name d \<notin> set (getExcludedFolders cfg))
   \<and> root_md h cfg (v\<lparr>root := prune (getExcludedFolders cfg) (root v)\<rparr>) = root_md h cfg v
   \<and> level2_md h cfg (prune (getExcludedFolders cfg) folder) = level2_md h cfg folder
   \<and> buildRecursiveContent h cfg (prune (getExcludedFolders cfg) folder) excludeName level
       = buildRecursiveContent h cfg folder excludeName level
   \<and> level2_forEach h cfg r (prune_list (getExcludedFolders cfg) cs) st
       = level2_forEach h cfg r cs st"
proof -
  have guards: "updateOrCreateLevel2Navigation h cfg parent folder st = (None, st)
      \<and> updateOrCreateLevel3Navigation h cfg folder st = (None, st)"
    if "name folder \<in> set (getExcludedFolders cfg)"
    using that
    by (simp add: updateOrCreateLevel2Navigation_def updateOrCreateLevel3Navigation_def
        level3_call_def)
  have lists: "\<forall>d \<in> set (root_folders h cfg v). name d \<notin> set (getExcludedFolders cfg)"
    "\<forall>d \<in> set (level2_subFolders h cfg folder). name d \<notin> set (getExcludedFolders cfg)"
    "\<forall>d \<in> set (build_subfolders h cfg cs). name d \<notin> set (getExcludedFolders cfg)"
    by (simp_all add: root_folders_def level2_subFolders_def build_subfolders_def)
  from guards lists show ?thesis
    using root_md_prune [where h = h and cfg = cfg and v = v]
      level2_md_prune [where h = h and cfg = cfg and d = folder]
      build_prune [where h = h and cfg = cfg and d = folder and ex = excludeName and level = level]
      level2_forEach_prune [where h = h and cfg = cfg and r = r and cs = cs and st = st]
    by blast
qed

theorem excluded_folders_skipped_witness:
  "updateOrCreateLevel2Navigation (obsidian numeric_compare) DEFAULT_SETTINGS
       (Some (root scenario_vault)) (TFolder ''Templates'' ''Templates'' []) (scenario_vault, [])
     = (None, scenario_vault, [])
   \<and> updateOrCreateLevel3Navigation (obsidian numeric_compare) DEFAULT_SETTINGS
       (TFolder ''Templates'' ''Templates'' []) (scenario_vault, [])
     = (None, scenario_vault, [])
   \<and> map name (root_folders (obsidian numeric_compare) DEFAULT_SETTINGS scenario_vault)
     = [''Projects'']
   \<and> level2_forEach (obsidian numeric_compare) DEFAULT_SETTINGS (root scenario_vault)
       [Folder (TFolder ''Projects'' ''Projects''
           [Folder (TFolder ''Projects/Alpha'' ''Alpha'' []),
            File (TFile ''Projects/Notes.md'' ''Notes.md'' ''Notes'' ''md'')])]
       (scenario_vault, [])
     = level2_forEach (obsidian numeric_compare) DEFAULT_SETTINGS (root scenario_vault)
         (children (root scenario_vault)) (scenario_vault, [])"
proof -
  have ex: "name (TFolder ''Templates'' ''Templates'' []) \<in> set (getExcludedFolders DEFAULT_SETTINGS)"
    by (simp add: default_excluded)
  have names: "map name (root_folders (obsidian numeric_compare) DEFAULT_SETTINGS scenario_vault)
     = [''Projects'']"
    by (simp add: root_folders_def default_excluded scenario_vault_def)
  have pruned: "prune_list (getExcludedFolders DEFAULT_SETTINGS) (children (root scenario_vault))
     = [Folder (TFolder ''Projects'' ''Projects''
           [Folder (TFolder ''Projects/Alpha'' ''Alpha'' []),
            File (TFile ''Projects/Notes.md'' ''Notes.md'' ''Notes'' ''md'')])]"
    by (simp add: default_excluded scenario_vault_def)
  show ?thesis
    using excluded_folders_skipped [where h = "obsidian numeric_compare"
        and cfg = DEFAULT_SETTINGS and folder = "TFolder ''Templates'' ''Templates'' []"
        and parent = "Some (root scenario_vault)" and st = "(scenario_vault, [])"
        and v = scenario_vault and cs = "children (root scenario_vault)"
        and r = "root scenario_vault"] ex names
    unfolding pruned by simp
qed

subsection \<open>The objects of a tree\<close>

lemma all_nodes_list_append [simp]:
  "all_nodes_list (xs @ ys) = all_nodes_list xs @ all_nodes_list ys"
  by (induction xs rule: folders_of.induct) simp_all



lemma nodes_of_children: "set (all_nodes_list (children d)) \<subseteq> set (all_nodes d)"
  by (cases d) auto


lemma folders_of_nodes_add_file:
  "folders_of (all_nodes (add_file pp f d)) = map (add_file pp f) (folders_of (all_nodes d))"
  "folders_of (all_nodes_list (add_file_list pp f cs))
     = map (add_file pp f) (folders_of (all_nodes_list cs))"
  by (induction pp f d and pp f cs rule: add_file_add_file_list.induct) auto

lemma folder_paths_add_file [simp]:
  "map path (folders_of (all_nodes (add_file pp f d))) = map path (folders_of (all_nodes d))"
  by (simp add: folders_of_nodes_add_file comp_def)

lemma folder_names_add_file [simp]:
  "map name (folders_of (all_nodes (add_file pp f d))) = map name (folders_of (all_nodes d))"
  by (simp add: folders_of_nodes_add_file comp_def)


text \<open>Fetching a path other than the new document's gives what it gave, folders updated.\<close>

lemma find_append_cases:
  "find P (xs @ ys) = (case find P xs of None \<Rightarrow> find P ys | Some x \<Rightarrow> Some x)"
  by (induction xs) simp_all

lemma find_add_file:
  "q \<noteq> fpath f \<Longrightarrow>
   find (\<lambda>x. apath x = q) (all_nodes (add_file pp f d))
     = map_option (refreshed pp f) (find (\<lambda>x. apath x = q) (all_nodes d))"
  "q \<noteq> fpath f \<Longrightarrow>
   find (\<lambda>x. apath x = q) (all_nodes_list (add_file_list pp f cs))
     = map_option (refreshed pp f) (find (\<lambda>x. apath x = q) (all_nodes_list cs))"
proof (induction pp f d and pp f cs rule: add_file_add_file_list.induct)
  case (1 pp f p n cs)
  then show ?case by (simp add: find_append_cases split: option.splits)
next
  case (2 pp f)
  then show ?case by simp
next
  case (3 pp f g cs)
  then show ?case by simp
next
  case (4 pp f d cs)
  then show ?case by (simp add: find_append_cases split: option.splits)
qed

lemma nodes_add_file_subset:
  "set (all_nodes (add_file pp f d)) \<subseteq> refreshed pp f ` set (all_nodes d) \<union> {File f}"
  "set (all_nodes_list (add_file_list pp f cs))
     \<subseteq> refreshed pp f ` set (all_nodes_list cs) \<union> {File f}"
  by (induction pp f d and pp f cs rule: add_file_add_file_list.induct) auto

lemma new_file_in_nodes:
  "pp \<in> set (map path (folders_of (all_nodes d))) \<Longrightarrow> File f \<in> set (all_nodes (add_file pp f d))"
  "pp \<in> set (map path (folders_of (all_nodes_list cs)))
     \<Longrightarrow> File f \<in> set (all_nodes_list (add_file_list pp f cs))"
  by (induction pp f d and pp f cs rule: add_file_add_file_list.induct) auto

lemma find_unique:
  assumes "a \<in> set xs" and "P a" and "\<forall>x\<in>set xs. P x \<longrightarrow> x = a"
  shows "find P xs = Some a"
  using assms
proof (induction xs)
  case Nil
  then show ?case by simp
next
  case (Cons y ys)
  show ?case
  proof (cases "P y")
    case True
    with Cons.prems(3) have "y = a" by simp
    with True show ?thesis by simp
  next
    case False
    with Cons.prems have "a \<in> set ys" by auto
    moreover from Cons.prems(3) have "\<forall>x\<in>set ys. P x \<longrightarrow> x = a" by simp
    ultimately have "find P ys = Some a" using Cons.prems(2) Cons.IH by blast
    with False show ?thesis by simp
  qed
qed

lemma refreshed_apath [simp]: "apath (refreshed pp f x) = apath x"
  by (cases x) simp_all

lemma find_new_file:
  assumes absent: "find (\<lambda>x. apath x = fpath f) (all_nodes d) = None"
    and parent: "pp \<in> set (map path (folders_of (all_nodes d)))"
  shows "find (\<lambda>x. apath x = fpath f) (all_nodes (add_file pp f d)) = Some (File f)"
proof -
  have here: "File f \<in> set (all_nodes (add_file pp f d))"
    using parent by (rule new_file_in_nodes)
  from absent have none: "\<forall>y\<in>set (all_nodes d). apath y \<noteq> fpath f"
    by (simp add: find_None_iff)
  have only: "\<forall>x\<in>set (all_nodes (add_file pp f d)). apath x = fpath f \<longrightarrow> x = File f"
  proof (intro ballI impI)
    fix x assume x: "x \<in> set (all_nodes (add_file pp f d))" and px: "apath x = fpath f"
    from x nodes_add_file_subset(1) [of pp f d]
    have "x = File f \<or> x \<in> refreshed pp f ` set (all_nodes d)" by blast
    with px none show "x = File f" by auto
  qed
  from here _ only show ?thesis
    by (rule find_unique) simp
qed

subsection \<open>Steps on the reference host\<close>

lemma obsidian_fields [simp]:
  "vault_create (obsidian cmp) = obs_create"
  "vault_modify (obsidian cmp) = obs_modify"
  "vault_read (obsidian cmp) = obs_read"
  "localeCompare (obsidian cmp) = cmp"
  by (simp_all add: obsidian_def)

lemma reconcile_same_doc:
  "same_doc x y \<Longrightarrow> reconcile (obsidian cmp) x p md st = reconcile (obsidian cmp) y p md st"
  by (cases "(x, y)" rule: same_doc.cases)
     (simp_all add: reconcile_unfold obs_read_def obs_modify_def split: prod.splits)

lemma found_has_path: "getAbstractFileByPath v p = Some x \<Longrightarrow> apath x = p"
  by (auto simp: getAbstractFileByPath_def find_Some_iff)

lemma fpath_new_file [simp]: "fpath (new_file p) = p"
  by (simp add: new_file_def)

lemma status_IsFolder: "(status_at v p = IsFolder) = (\<exists>d. getAbstractFileByPath v p = Some (Folder d))"
  by (auto simp: status_at_def split: option.splits tabstract.splits)

lemma status_Absent: "(status_at v p = Absent) = (getAbstractFileByPath v p = None)"
  by (auto simp: status_at_def split: option.splits tabstract.splits)

lemma step_blocked:
  "status_at v p = IsFolder \<or> status_at v p = Unreadable \<Longrightarrow>
   step (obsidian cmp) p md (v, log) = (Some IOError, v, log)"
  by (auto simp: step_def status_at_def reconcile_unfold obs_read_def
      split: option.splits tabstract.splits)

lemma step_same_text:
  "status_at v p = Text c \<Longrightarrow> trim c = trim md \<Longrightarrow>
   step (obsidian cmp) p md (v, log) = (None, v, log)"
  by (auto simp: step_def status_at_def reconcile_unfold obs_read_def
      split: option.splits tabstract.splits)

lemma step_other_text:
  "status_at v p = Text c \<Longrightarrow> trim c \<noteq> trim md \<Longrightarrow>
   step (obsidian cmp) p md (v, log)
     = (None, v\<lparr>contents := (contents v)(p \<mapsto> md)\<rparr>, log @ [Modify p md])"
  by (auto simp: step_def status_at_def reconcile_unfold obs_read_def obs_modify_def
      dest: found_has_path split: option.splits tabstract.splits)

lemma step_absent:
  "status_at v p = Absent \<Longrightarrow> status_at v (parent_path p) = IsFolder \<Longrightarrow>
   step (obsidian cmp) p md (v, log)
     = (None, \<lparr>root = add_file (parent_path p) (new_file p) (root v),
                contents = (contents v)(p \<mapsto> md)\<rparr>, log @ [Create p md])"
  by (auto simp: step_def status_Absent status_IsFolder reconcile_unfold obs_create_def)

lemma lookup_contents_update [simp]:
  "getAbstractFileByPath (v\<lparr>contents := c\<rparr>) q = getAbstractFileByPath v q"
  by (simp add: getAbstractFileByPath_def)

lemma found_file_path: "getAbstractFileByPath v q = Some (File g) \<Longrightarrow> fpath g = q"
  using found_has_path [of v q "File g"] by simp

lemma status_after_modify:
  "status_at (v\<lparr>contents := (contents v)(p \<mapsto> md)\<rparr>) q
     = (if q = p \<and> (\<exists>g. getAbstractFileByPath v p = Some (File g)) then Text md
        else status_at v q)"
proof (cases "getAbstractFileByPath v q")
  case None
  then show ?thesis by (auto simp: status_at_def)
next
  case (Some x)
  show ?thesis
  proof (cases x)
    case (File g)
    with Some have "fpath g = q" by (simp add: found_file_path)
    with Some File show ?thesis
      by (auto simp: status_at_def split: option.splits)
  next
    case (Folder d)
    with Some show ?thesis by (auto simp: status_at_def)
  qed
qed

lemma same_doc_refl [simp]: "same_doc x x"
proof (cases x)
  case None
  then show ?thesis by simp
next
  case (Some a)
  then show ?thesis by (cases a) simp_all
qed

lemma lookup_after_create:
  "q \<noteq> p \<Longrightarrow>
   getAbstractFileByPath \<lparr>root = add_file pp (new_file p) (root v), contents = c\<rparr> q
     = map_option (refreshed pp (new_file p)) (getAbstractFileByPath v q)"
  by (simp add: getAbstractFileByPath_def find_add_file)

lemma same_doc_refreshed: "same_doc x (map_option (refreshed pp f) x)"
proof (cases x)
  case None
  then show ?thesis by simp
next
  case (Some a)
  then show ?thesis by (cases a) simp_all
qed

lemma folder_path_of_status:
  "status_at v pp = IsFolder \<Longrightarrow> pp \<in> set (map path (folders_of (all_nodes (root v))))"
proof -
  assume "status_at v pp = IsFolder"
  then obtain d where d: "getAbstractFileByPath v pp = Some (Folder d)"
    by (auto simp: status_IsFolder)
  then have "Folder d \<in> set (all_nodes (root v))"
    by (auto simp: getAbstractFileByPath_def find_Some_iff)
  then have "d \<in> set (folders_of (all_nodes (root v)))"
    by (simp add: Folder_in_children)
  moreover from d have "path d = pp"
    using found_has_path by fastforce
  ultimately show ?thesis by auto
qed

lemma status_after_create:
  assumes "status_at v p = Absent" and "status_at v pp = IsFolder"
  shows "status_at \<lparr>root = add_file pp (new_file p) (root v), contents = (contents v)(p \<mapsto> md)\<rparr> q
     = (if q = p then Text md else status_at v q)"
proof (cases "q = p")
  case True
  from assms(1) have "find (\<lambda>x. apath x = fpath (new_file p)) (all_nodes (root v)) = None"
    by (simp add: status_Absent getAbstractFileByPath_def)
  then have "find (\<lambda>x. apath x = fpath (new_file p)) (all_nodes (add_file pp (new_file p) (root v)))
      = Some (File (new_file p))"
    using folder_path_of_status [OF assms(2)] by (rule find_new_file)
  with True show ?thesis
    by (simp add: status_at_def getAbstractFileByPath_def)
next
  case False
  let ?v' = "\<lparr>root = add_file pp (new_file p) (root v), contents = (contents v)(p \<mapsto> md)\<rparr>"
  have l: "getAbstractFileByPath ?v' q
      = map_option (refreshed pp (new_file p)) (getAbstractFileByPath v q)"
    using False by (rule lookup_after_create)
  show ?thesis
  proof (cases "getAbstractFileByPath v q")
    case None
    with l False show ?thesis by (simp add: status_at_def)
  next
    case (Some x)
    then have "apath x = q" by (rule found_has_path)
    with Some l False show ?thesis
      by (cases x) (simp_all add: status_at_def)
  qed
qed

text \<open>What a step on the reference host does, by what it finds at its path.\<close>

lemma step_effect:
  assumes step: "step (obsidian cmp) p md (v, log) = (r, v', log')"
    and parent: "status_at v (parent_path p) = IsFolder"
  shows "(\<forall>q. q \<noteq> p \<longrightarrow> status_at v' q = status_at v q
                \<and> same_doc (getAbstractFileByPath v q) (getAbstractFileByPath v' q))
    \<and> (blocked v p \<longrightarrow> r = Some IOError \<and> v' = v \<and> log' = log)
    \<and> (\<not> blocked v p \<longrightarrow> r = None \<and> settled v' p md)
    \<and> (settled v p md \<longrightarrow> v' = v \<and> log' = log)
    \<and> (status_at v p = Absent \<longrightarrow> log' = log @ [Create p md])
    \<and> (root v' = root v
        \<or> status_at v p = Absent \<and> root v' = add_file (parent_path p) (new_file p) (root v))"
proof (cases "status_at v p")
  case Absent
  with step parent have v': "v' = \<lparr>root = add_file (parent_path p) (new_file p) (root v),
      contents = (contents v)(p \<mapsto> md)\<rparr>" and r: "r = None" and l: "log' = log @ [Create p md]"
    by (simp_all add: step_absent)
  have st: "status_at v' q = (if q = p then Text md else status_at v q)" for q
    unfolding v' using Absent parent by (rule status_after_create)
  have "same_doc (getAbstractFileByPath v q) (getAbstractFileByPath v' q)" if "q \<noteq> p" for q
    unfolding v' using that by (simp add: lookup_after_create same_doc_refreshed)
  with Absent r l st v' show ?thesis
    by (simp add: blocked_def settled_def)
next
  case IsFolder
  with step show ?thesis
    by (simp add: step_blocked blocked_def settled_def)
next
  case Unreadable
  with step show ?thesis
    by (simp add: step_blocked blocked_def settled_def)
next
  case (Text c)
  show ?thesis
  proof (cases "trim c = trim md")
    case True
    with Text step show ?thesis
      by (simp add: step_same_text blocked_def settled_def)
  next
    case False
    with Text step have v': "v' = v\<lparr>contents := (contents v)(p \<mapsto> md)\<rparr>" and r: "r = None"
      by (simp_all add: step_other_text)
    from Text obtain g where "getAbstractFileByPath v p = Some (File g)"
      by (auto simp: status_at_def split: option.splits tabstract.splits)
    then have "status_at v' q = (if q = p then Text md else status_at v q)" for q
      unfolding v' by (simp add: status_after_modify)
    with Text False r v' show ?thesis
      by (simp add: blocked_def settled_def)
  qed
qed

subsection \<open>Runs of steps on the reference host\<close>

lemma same_doc_trans: "same_doc x y \<Longrightarrow> same_doc y z \<Longrightarrow> same_doc x z"
  by (cases "(x, y)" rule: same_doc.cases; cases "(y, z)" rule: same_doc.cases) simp_all

lemma step_keeps:
  assumes "step (obsidian cmp) p md (v, log) = (r, v', log')"
    and "status_at v (parent_path p) = IsFolder"
  shows "blocked v' q = blocked v q"
    and "status_at v q = IsFolder \<Longrightarrow> status_at v' q = IsFolder"
proof -
  note e = step_effect [OF assms]
  show "blocked v' q = blocked v q"
  proof (cases "q = p")
    case True
    with e show ?thesis by (cases "blocked v p") (auto simp: blocked_def settled_def)
  next
    case False
    with e show ?thesis by (simp add: blocked_def)
  qed
  show "status_at v' q = IsFolder" if "status_at v q = IsFolder"
  proof (cases "q = p")
    case True
    with that have "blocked v p" by (simp add: blocked_def)
    with e True that show ?thesis by simp
  next
    case False
    with e that show ?thesis by simp
  qed
qed

lemma creatable_Cons [simp]:
  "creatable v (i # items)
     = (status_at v (parent_path (item_path i)) = IsFolder \<and> creatable v items)"
  by (simp add: creatable_def)

lemma creatable_step:
  assumes "step (obsidian cmp) p md (v, log) = (r, v', log')"
    and "status_at v (parent_path p) = IsFolder"
    and "creatable v items"
  shows "creatable v' items"
  using assms(3) step_keeps(2) [OF assms(1,2)] by (simp add: creatable_def)

lemma step_frame:
  assumes "step (obsidian cmp) p md (v, log) = (r, v', log')"
    and "status_at v (parent_path p) = IsFolder"
    and "q \<noteq> p"
  shows "status_at v' q = status_at v q"
    and "same_doc (getAbstractFileByPath v q) (getAbstractFileByPath v' q)"
  using step_effect [OF assms(1,2)] assms(3) by blast+

lemma run_frame:
  assumes "run (obsidian cmp) items (v, log) = (r, v', log')"
    and "creatable v items"
  shows "(\<forall>q. q \<notin> set (map item_path items) \<longrightarrow>
            status_at v' q = status_at v q
            \<and> same_doc (getAbstractFileByPath v q) (getAbstractFileByPath v' q))
         \<and> (\<forall>q. blocked v' q = blocked v q)
         \<and> (\<forall>q. status_at v q = IsFolder \<longrightarrow> status_at v' q = IsFolder)"
  using assms
proof (induction items arbitrary: v log)
  case Nil
  then show ?case by simp
next
  case (Cons i items)
  obtain p md where i: "i = Must p md \<or> i = May p md" by (cases i) auto
  then have ip: "item_path i = p" by auto
  obtain r1 v1 log1 where s: "step (obsidian cmp) p md (v, log) = (r1, v1, log1)"
    by (cases "step (obsidian cmp) p md (v, log)") auto
  from Cons.prems(2) ip have par: "status_at v (parent_path p) = IsFolder"
    and rest: "creatable v items" by auto
  note k = step_keeps [OF s par]
  have c1: "creatable v1 items" using s par rest by (rule creatable_step)
  have f1: "status_at v1 q = status_at v q
      \<and> same_doc (getAbstractFileByPath v q) (getAbstractFileByPath v1 q)" if "q \<noteq> p" for q
    using step_frame [OF s par that] by simp
  show ?case
  proof (cases "i = Must p md \<and> r1 \<noteq> None")
    case True
    with Cons.prems(1) s have "v' = v1" by (auto split: option.splits)
    with f1 k ip show ?thesis by simp
  next
    case False
    with Cons.prems(1) s i have "run (obsidian cmp) items (v1, log1) = (r, v', log')"
      by (auto split: option.splits)
    note ih = Cons.IH [OF this c1]
    have "status_at v' q = status_at v q
        \<and> same_doc (getAbstractFileByPath v q) (getAbstractFileByPath v' q)"
      if "q \<notin> set (map item_path (i # items))" for q
    proof -
      from that ip have qp: "q \<noteq> p" and qr: "q \<notin> set (map item_path items)" by auto
      from ih qr have "status_at v' q = status_at v1 q"
        and "same_doc (getAbstractFileByPath v1 q) (getAbstractFileByPath v' q)" by blast+
      with f1 [OF qp] show ?thesis by (auto intro: same_doc_trans)
    qed
    moreover have "blocked v' q = blocked v q" for q
      using ih k(1) by simp
    moreover have "status_at v' q = IsFolder" if "status_at v q = IsFolder" for q
      using ih k(2) [OF that] by blast
    ultimately show ?thesis by blast
  qed
qed

lemma creatable_run:
  assumes "run (obsidian cmp) items (v, log) = (r, v', log')"
    and "creatable v items" and "creatable v others"
  shows "creatable v' others"
  using run_frame [OF assms(1,2)] assms(3) by (simp add: creatable_def)



subsection \<open>Paths of index documents\<close>



lemma takeWhile_no_sep: "sep \<notin> set xs \<Longrightarrow> takeWhile (\<lambda>c. c \<noteq> sep) xs = xs"
  by (induction xs) auto




lemma name_of_path_root:
  assumes "CHR ''/'' \<notin> set n"
  shows "name_of_path (n @ ''.md'') = n @ ''.md''"
proof -
  have "CHR ''/'' \<notin> set (rev (n @ ''.md''))"
    using assms by simp
  then have "takeWhile (\<lambda>c. c \<noteq> CHR ''/'') (rev (n @ ''.md'')) = rev (n @ ''.md'')"
    by (rule takeWhile_no_sep)
  then have "rev (takeWhile (\<lambda>c. c \<noteq> CHR ''/'') (rev (n @ ''.md''))) = rev (rev (n @ ''.md''))"
    by (rule arg_cong)
  then show ?thesis
    unfolding name_of_path_def by (simp only: rev_rev_ident)
qed




subsection \<open>Consequences of the invariants of a vault\<close>















subsection \<open>The plan of a pass and new index documents\<close>

lemma navPath_add_file [simp]: "navPath (add_file pp f d) = navPath d"
  by (simp add: navPath_def)












subsection \<open>The steps of a plan\<close>



lemma children_items_Nil [simp]: "children_items h cfg [] = []"
  by (simp add: children_items_def)







subsection \<open>The paths of a plan are distinct\<close>












subsection \<open>Runs of lists put together\<close>


subsection \<open>Vaults with overwrites to come\<close>

lemma root_patch [simp]: "root (patch ms v) = root v"
  by (induction ms arbitrary: v) simp_all

lemma lookup_patch [simp]: "getAbstractFileByPath (patch ms v) q = getAbstractFileByPath v q"
  by (simp add: getAbstractFileByPath_def)






lemma status_patch_folder [simp]:
  "(status_at (patch ms v) q = IsFolder) = (status_at v q = IsFolder)"
  by (simp add: status_IsFolder)


subsection \<open>The two parts of the block on the reference host\<close>












subsection \<open>Suspended calls against steps in a row\<close>

lemma overwrite_of_failed [simp]: "overwrite_of (Reading x md (Inl e)) = []"
  by (cases x) simp_all

lemma calm_failed [simp]: "calm (Reading x md (Inl e))"
  by (cases x) simp_all


lemma overwrites_Cons [simp]: "overwrites (s # ss) = overwrite_of s @ overwrites ss"
  by (simp add: overwrites_def)

lemma overwrites_Nil [simp]: "overwrites [] = []"
  by (simp add: overwrites_def)




subsection \<open>A pass on the reference host against the run of its plan\<close>








subsection \<open>The writes of a run\<close>








subsection \<open>Whole passes on the reference host\<close>







end
